theory Spec2Isabelle
  imports Main
begin

section \<open>The README generator: a model of \<open>automation/generate_readme.py\<close>\<close>

text \<open>
  The script walks the immediate sub-folders of a root directory, collects the text files of
  each one into a dictionary from path to content, builds a prompt of bounded length from
  them, sends the prompt to a text-generation service and writes the answer as
  \<open>README.md\<close> into the folder.

  Conventions of the model.
  \<^item> A Python \<open>str\<close> is a \<open>string\<close>; one \<open>char\<close> stands for one Python character, so
    \<open>length\<close> is Python's \<open>len\<close>. The code inspects characters only when it compares
    names with ASCII literals and lower-cases a suffix.
  \<^item> A \<open>pathlib.Path\<close> is the list of its parts below the file-system root;
    paths are absolute and POSIX.
  \<^item> The file system is a tree of regular files, directories with a read and a search
    permission, and symbolic links. What the code asks the file system by path
    (\<open>is_dir\<close>, \<open>exists\<close>, \<open>stat\<close>, \<open>open\<close>) is answered as \<open>stat\<close> answers it:
    links are followed, a dangling link is not found, and nothing below a directory
    without search permission can be reached. The queries of \<open>pathlib\<close> behave as
    in Python 3.8 to 3.12: they answer \<open>False\<close> for a path that is not found and
    re-raise the \<open>PermissionError\<close> of a refused \<open>stat\<close>.
  \<^item> \<open>print\<close>, the requests sent to the service and the files written are recorded in
    an explicit \<open>world\<close> value that every effectful function takes and returns.
  \<^item> A raised exception is a value; a function that can raise returns a sum with the
    exception on the left.
\<close>

subsection \<open>Constants\<close>

definition IGNORE_FOLDERS :: "string list" where
  "IGNORE_FOLDERS = [''.git'', ''automation'', ''__pycache__'', ''.stopautomation'']"

definition IGNORE_FILES :: "string list" where
  "IGNORE_FILES = [''README.md'', ''.env'']"

definition STOP_AUTOMATION_FOLDER :: string where
  "STOP_AUTOMATION_FOLDER = ''.stopautomation''"

definition MAX_FILE_SIZE :: nat where
  "MAX_FILE_SIZE = 100000"

definition MAX_CONTENT_LENGTH :: nat where
  "MAX_CONTENT_LENGTH = 30000"

subsection \<open>Paths and exceptions\<close>

type_synonym path = "string list"

text \<open>\<open>path.name\<close>: the last part, empty for the root.\<close>

definition name :: "path \<Rightarrow> string" where
  "name p = (if p = [] then [] else last p)"

text \<open>\<open>str(path)\<close> of an absolute POSIX path.\<close>

definition str_path :: "path \<Rightarrow> string" where
  "str_path p = (if p = [] then ''/'' else concat (map (\<lambda>part. ''/'' @ part) p))"

text \<open>
  \<open>Exception msg\<close> is an instance of \<open>Exception\<close> with \<open>str(e) = msg\<close>: what
  \<open>except Exception\<close> catches, every \<open>OSError\<close> included. \<open>Interrupt msg\<close> is an
  exception outside that hierarchy (\<open>KeyboardInterrupt\<close>, \<open>SystemExit\<close>), which
  \<open>except Exception\<close> lets through.
\<close>

datatype exn = Exception (str: string) | Interrupt (str: string)

subsection \<open>The file system\<close>

text \<open>
  A regular file has the size \<open>stat().st_size\<close> reports and the outcome of opening it as
  UTF-8 text and reading it whole: the decoded text, or the exception raised. A directory
  has a read permission (it can be listed), a search permission (its entries can be
  reached by path) and its entries in listing order. A symbolic link is dangling, or
  leads through a place that refuses the search, or has a target.
\<close>

datatype 'n link_target = Dangling | Refused | Target 'n

datatype node =
    File nat "exn + string"
  | Dir bool bool "(string \<times> node) list"
  | Link "node link_target"

text \<open>
  The answer of \<open>stat\<close>: the node found (never a link), \<open>ENOENT\<close>/\<open>ENOTDIR\<close>, or
  \<open>EACCES\<close>.
\<close>

datatype stat_result = Found node | NotFound | Denied

fun follow :: "node \<Rightarrow> stat_result" where
  "follow (Link Dangling) = NotFound"
| "follow (Link Refused) = Denied"
| "follow (Link (Target n)) = follow n"
| "follow (File file_size outcome) = Found (File file_size outcome)"
| "follow (Dir rd sr es) = Found (Dir rd sr es)"

text \<open>\<open>stat\<close> of an entry of a directory, given the search permission of the directory.\<close>

definition stat_entry :: "bool \<Rightarrow> node \<Rightarrow> stat_result" where
  "stat_entry dir_searchable n = (if dir_searchable then follow n else Denied)"

text \<open>\<open>stat\<close> of \<open>folder / child\<close>, given \<open>stat\<close> of \<open>folder\<close>.\<close>

definition stat_child :: "stat_result \<Rightarrow> string \<Rightarrow> stat_result" where
  "stat_child st child =
     (case st of
        Found (Dir rd sr es) \<Rightarrow>
          if sr then (case map_of es child of None \<Rightarrow> NotFound | Some c \<Rightarrow> follow c)
          else Denied
      | Found _ \<Rightarrow> NotFound
      | NotFound \<Rightarrow> NotFound
      | Denied \<Rightarrow> Denied)"

text \<open>\<open>stat\<close> of an absolute path, from the node of the file-system root.\<close>

fun stat_path :: "node \<Rightarrow> path \<Rightarrow> stat_result" where
  "stat_path n [] = follow n"
| "stat_path n (part # rest) =
     (case follow n of
        Found (Dir rd sr es) \<Rightarrow>
          if sr then (case map_of es part of None \<Rightarrow> NotFound | Some c \<Rightarrow> stat_path c rest)
          else Denied
      | Found _ \<Rightarrow> NotFound
      | NotFound \<Rightarrow> NotFound
      | Denied \<Rightarrow> Denied)"

subsection \<open>The outside world\<close>

text \<open>
  The collaborators outside the script. The answers of the generation service may change
  from one invocation of the generator client to the next, so they take the number of
  earlier invocations. \<open>os_error p\<close> is the text of the \<open>OSError\<close> that the operating
  system raises for a failed operation on \<open>p\<close>.
\<close>

record env =
  guess_type :: "string \<Rightarrow> string option"
  GenerativeModel :: "nat \<Rightarrow> exn option"
  generate_content :: "nat \<Rightarrow> string \<Rightarrow> exn + string"
  open_write :: "path \<Rightarrow> exn option"
  os_error :: "path \<Rightarrow> string"

record world =
  printed :: "string list"
  invocations :: nat
  requests :: "string list"
  written :: "(path \<times> string) list"

definition print :: "string \<Rightarrow> world \<Rightarrow> world" where
  "print line w = w\<lparr>printed := printed w @ [line]\<rparr>"

text \<open>
  \<open>Path.is_dir()\<close> and \<open>Path.exists()\<close>, given the answer of \<open>stat\<close> for the path:
  pathlib turns a path that is not found into \<open>False\<close> and re-raises a refusal.
\<close>

definition path_is_dir :: "env \<Rightarrow> path \<Rightarrow> stat_result \<Rightarrow> exn + bool" where
  "path_is_dir e p st =
     (case st of
        Found (Dir rd sr es) \<Rightarrow> Inr True
      | Found _ \<Rightarrow> Inr False
      | NotFound \<Rightarrow> Inr False
      | Denied \<Rightarrow> Inl (Exception (os_error e p)))"

definition path_exists :: "env \<Rightarrow> path \<Rightarrow> stat_result \<Rightarrow> exn + bool" where
  "path_exists e p st =
     (case st of
        Found _ \<Rightarrow> Inr True
      | NotFound \<Rightarrow> Inr False
      | Denied \<Rightarrow> Inl (Exception (os_error e p)))"

text \<open>
  \<open>DirEntry.is_dir()\<close> of an entry that \<open>os.scandir\<close> lists: the listing tells the kind
  of a file and of a directory, and a link is followed with \<open>stat\<close>.
\<close>

definition entry_is_dir :: "env \<Rightarrow> path \<Rightarrow> bool \<Rightarrow> node \<Rightarrow> exn + bool" where
  "entry_is_dir e p dir_searchable n =
     (case n of
        Dir rd sr es \<Rightarrow> Inr True
      | File file_size outcome \<Rightarrow> Inr False
      | Link t \<Rightarrow> path_is_dir e p (stat_entry dir_searchable n))"

text \<open>
  \<open>os.scandir(p)\<close>: the search permission of the directory and its entries, or the
  \<open>OSError\<close> for a path that is not a directory that can be read.
\<close>

definition scandir :: "env \<Rightarrow> node \<Rightarrow> path \<Rightarrow> exn + bool \<times> (string \<times> node) list" where
  "scandir e fs p =
     (case stat_path fs p of
        Found (Dir rd sr es) \<Rightarrow> if rd then Inr (sr, es) else Inl (Exception (os_error e p))
      | Found _ \<Rightarrow> Inl (Exception (os_error e p))
      | NotFound \<Rightarrow> Inl (Exception (os_error e p))
      | Denied \<Rightarrow> Inl (Exception (os_error e p)))"

text \<open>Decimal rendering of a length inside an f-string.\<close>

fun str_nat :: "nat \<Rightarrow> string" where
  "str_nat n =
     (if n < 10 then [char_of (48 + n)]
      else str_nat (n div 10) @ [char_of (48 + n mod 10)])"

subsection \<open>Prompt assembly and the generator client\<close>

definition base_prompt :: string where
  "base_prompt =
     ''Please analyze the following project files and generate a comprehensive README.md file.\<newline>'' @
     ''        The README should be in Markdown format with inline HTML for interactive elements.\<newline>'' @
     ''        \<newline>'' @
     ''        Required sections:\<newline>'' @
     ''        1. Project Overview - A clear description of what the project does\<newline>'' @
     ''        2. Features - List of main features and capabilities\<newline>'' @
     ''        3. Installation - How to install and set up the project\<newline>'' @
     ''        4. Usage - How to use the project with examples\<newline>'' @
     ''        5. Example Code Snippets - If applicable, show some code examples\<newline>'' @
     ''        6. License - Include license information if available\<newline>'' @
     ''        \<newline>'' @
     ''        Use HTML elements like <details> for collapsible sections to make it interactive.\<newline>'' @
     ''        Make the README professional, well-structured, and easy to understand.\<newline>'' @
     ''        \<newline>'' @
     ''        Project files:\<newline>'' @
     ''        ''"

definition file_block :: "string \<Rightarrow> string \<Rightarrow> string" where
  "file_block file_path content =
     ''\<newline>\<newline>File: '' @ file_path @ ''\<newline>Content:\<newline>'' @ content @ ''\<newline>''"

definition no_content_notice :: string where
  "no_content_notice =
     ''\<newline>\<newline>No file contents were included in the prompt due to size limitations or no relevant files being found.''"

definition skipped_notice :: string where
  "skipped_notice =
     ''\<newline>\<newline>... (some file contents were skipped due to total prompt length limitations)''"

text \<open>
  The loop over \<open>file_contents.items()\<close>: the dictionary is the list of its items in
  iteration order. The loop breaks at the first block that does not fit.
\<close>

fun add_files :: "string \<Rightarrow> (string \<times> string) list \<Rightarrow> world \<Rightarrow> string \<times> world" where
  "add_files prompt [] w = (prompt, w)"
| "add_files prompt ((file_path, content) # rest) w =
     (if length prompt + length (file_block file_path content) > MAX_CONTENT_LENGTH
      then (prompt,
            print (''Warning: Skipping file '' @ file_path @
                   '' because adding its content would exceed the total prompt length limit.'') w)
      else add_files (prompt @ file_block file_path content) rest w)"

text \<open>The message added after the loop.\<close>

definition add_notice :: "string \<Rightarrow> (string \<times> string) list \<Rightarrow> string" where
  "add_notice prompt file_contents =
     (if length prompt = length base_prompt then prompt @ no_content_notice
      else if length prompt <
              sum_list (map (\<lambda>(fp, content). length (file_block fp content)) file_contents)
              + length base_prompt
      then prompt @ skipped_notice
      else prompt)"

text \<open>The prompt that is handed to \<open>model.generate_content\<close>.\<close>

definition build_prompt :: "(string \<times> string) list \<Rightarrow> world \<Rightarrow> string \<times> world" where
  "build_prompt file_contents w =
     (case add_files base_prompt file_contents w of
        (prompt, w') \<Rightarrow> (add_notice prompt file_contents, w'))"

definition error_document :: "string \<Rightarrow> string" where
  "error_document description =
     ''# Error Generating README\<newline>\<newline>An error occurred while generating the README: '' @ description"

text \<open>
  The body of the \<open>try\<close> block: model initialisation, prompt assembly, the service call
  and the reading of \<open>response.text\<close> (its exceptions are those of the call).
\<close>

definition try_body :: "env \<Rightarrow> (string \<times> string) list \<Rightarrow> world \<Rightarrow> (exn + string) \<times> world" where
  "try_body e file_contents w =
     (case GenerativeModel e (invocations w) of
        Some ex \<Rightarrow> (Inl ex, w)
      | None \<Rightarrow>
          (case build_prompt file_contents w of
             (prompt, w1) \<Rightarrow>
               (let w2 = w1\<lparr>requests := requests w1 @ [prompt]\<rparr> in
                case generate_content e (invocations w) prompt of
                  Inl ex \<Rightarrow> (Inl ex, w2)
                | Inr text \<Rightarrow>
                    if text = []
                    then (Inr (error_document
                                 (''Received empty response from Gemini API. Prompt length: '' @
                                  str_nat (length prompt))),
                          print ''Gemini API returned an empty response even after prompt truncation.'' w2)
                    else (Inr text, w2))))"

text \<open>
  The function with its \<open>except Exception\<close> handler: an instance of \<open>Exception\<close>
  becomes the error document, any other exception leaves the function.
\<close>

definition generate_readme_with_gemini ::
    "env \<Rightarrow> (string \<times> string) list \<Rightarrow> world \<Rightarrow> (exn + string) \<times> world" where
  "generate_readme_with_gemini e file_contents w =
     (case try_body e file_contents w of
        (Inl (Exception description), w') \<Rightarrow>
          (Inr (error_document description),
           (print (''Error generating README with Gemini: '' @ description) w')
             \<lparr>invocations := Suc (invocations w)\<rparr>)
      | (Inl (Interrupt description), w') \<Rightarrow>
          (Inl (Interrupt description), w'\<lparr>invocations := Suc (invocations w)\<rparr>)
      | (Inr readme, w') \<Rightarrow> (Inr readme, w'\<lparr>invocations := Suc (invocations w)\<rparr>))"

subsection \<open>Folder discovery\<close>

text \<open>
  \<open>should_ignore\<close> takes the outcome of \<open>path.is_dir()\<close> as its second argument; the
  code asks for it only when the name is on neither list.
\<close>

definition should_ignore :: "path \<Rightarrow> exn + bool \<Rightarrow> exn + bool" where
  "should_ignore p p_is_dir =
     (if name p \<in> set IGNORE_FOLDERS \<or> name p \<in> set IGNORE_FILES then Inr True
      else
        (case p_is_dir of
           Inl ex \<Rightarrow> Inl ex
         | Inr d \<Rightarrow>
             if d \<and> list_ex (\<lambda>part. part \<in> set IGNORE_FOLDERS) p then Inr True
             else Inr False))"

text \<open>
  The loop over \<open>os.scandir(root_dir)\<close>, in the order the directory lists its entries.
  \<open>root_searchable\<close> is the search permission of \<open>root_dir\<close>. An exception of a query
  ends the loop and leaves the function.
\<close>

fun scan_loop ::
    "env \<Rightarrow> path \<Rightarrow> bool \<Rightarrow> (string \<times> node) list \<Rightarrow> path list \<Rightarrow> world
       \<Rightarrow> (exn + path list) \<times> world" where
  "scan_loop e root_dir root_searchable [] project_folders w = (Inr project_folders, w)"
| "scan_loop e root_dir root_searchable ((item_name, item) # items) project_folders w =
     (case entry_is_dir e (root_dir @ [item_name]) root_searchable item of
        Inl ex \<Rightarrow> (Inl ex, w)
      | Inr False \<Rightarrow> scan_loop e root_dir root_searchable items project_folders w
      | Inr True \<Rightarrow>
          (case should_ignore (root_dir @ [item_name])
                  (path_is_dir e (root_dir @ [item_name]) (stat_entry root_searchable item)) of
             Inl ex \<Rightarrow> (Inl ex, w)
           | Inr True \<Rightarrow> scan_loop e root_dir root_searchable items project_folders w
           | Inr False \<Rightarrow>
               (case path_exists e (root_dir @ [item_name, STOP_AUTOMATION_FOLDER])
                       (stat_child (stat_entry root_searchable item) STOP_AUTOMATION_FOLDER) of
                  Inl ex \<Rightarrow> (Inl ex, w)
                | Inr False \<Rightarrow>
                    scan_loop e root_dir root_searchable items
                      (project_folders @ [root_dir @ [item_name]]) w
                | Inr True \<Rightarrow>
                    scan_loop e root_dir root_searchable items project_folders
                      (print (''Skipping folder '' @ str_path (root_dir @ [item_name]) @
                              '' due to '' @ STOP_AUTOMATION_FOLDER @ '' folder.'') w))))"

definition find_project_folders ::
    "env \<Rightarrow> node \<Rightarrow> path \<Rightarrow> world \<Rightarrow> (exn + path list) \<times> world" where
  "find_project_folders e fs root_dir w =
     (case scandir e fs root_dir of
        Inl ex \<Rightarrow> (Inl ex, w)
      | Inr (root_searchable, items) \<Rightarrow> scan_loop e root_dir root_searchable items [] w)"

subsection \<open>Text classification\<close>

text \<open>\<open>str.rfind\<close> for one character.\<close>

fun rfind :: "char \<Rightarrow> string \<Rightarrow> nat option" where
  "rfind c [] = None"
| "rfind c (x # xs) =
     (case rfind c xs of
        Some i \<Rightarrow> Some (Suc i)
      | None \<Rightarrow> if x = c then Some 0 else None)"

text \<open>\<open>path.suffix\<close>: the last dot of the name and what follows, unless that dot is the
  first or the last character.\<close>

definition suffix :: "path \<Rightarrow> string" where
  "suffix p =
     (case rfind (CHR ''.'') (name p) of
        None \<Rightarrow> []
      | Some i \<Rightarrow> if 0 < i \<and> i < length (name p) - 1 then drop i (name p) else [])"

text \<open>\<open>str.lower\<close> on the characters of the model.\<close>

definition lower_char :: "char \<Rightarrow> char" where
  "lower_char c =
     (let k = (of_char c :: nat) in
      if (65 \<le> k \<and> k \<le> 90) \<or> (192 \<le> k \<and> k \<le> 222 \<and> k \<noteq> 215) then char_of (k + 32) else c)"

definition lower :: "string \<Rightarrow> string" where
  "lower s = map lower_char s"

definition text_extensions :: "string list" where
  "text_extensions =
     [''.py'', ''.js'', ''.ts'', ''.html'', ''.css'', ''.md'', ''.txt'', ''.json'', ''.xml'',
      ''.yaml'', ''.yml'', ''.sh'', ''.bat'', ''.ps1'']"

definition startswith :: "string \<Rightarrow> string \<Rightarrow> bool" where
  "startswith s pre = (take (length pre) s = pre)"

text \<open>The table of \<open>mimetypes.guess_type\<close> is a parameter.\<close>

definition is_text_file :: "(string \<Rightarrow> string option) \<Rightarrow> path \<Rightarrow> bool" where
  "is_text_file guess file_path =
     (if (case guess (str_path file_path) of
            None \<Rightarrow> False
          | Some mime_type \<Rightarrow> mime_type \<noteq> [] \<and> startswith mime_type ''text/'')
      then True
      else lower (suffix file_path) \<in> set text_extensions)"

subsection \<open>File collection\<close>

definition truncation_marker :: string where
  "truncation_marker = ''\<newline>... (content truncated due to length)''"

text \<open>\<open>d[key] = value\<close> on a dictionary kept as the list of its items.\<close>

fun dict_set :: "string \<Rightarrow> string \<Rightarrow> (string \<times> string) list \<Rightarrow> (string \<times> string) list" where
  "dict_set k v [] = [(k, v)]"
| "dict_set k v ((k', v') # d) = (if k' = k then (k, v) # d else (k', v') # dict_set k v d)"

text \<open>
  What the loop body finds at an entry that \<open>os.walk\<close> lists as a file: a regular file
  (also through a link) with its size and reading outcome, a dangling link, or an entry
  whose \<open>stat\<close> is refused.
\<close>

datatype file_view = Regular nat "exn + string" | Missing | Unreachable

text \<open>
  The body of the loop over the files of one directory. \<open>should_ignore\<close> is called
  before the \<open>try\<close>, so a refused \<open>is_dir\<close> leaves the function; inside the \<open>try\<close>
  every instance of \<open>Exception\<close> is printed and the file skipped.
\<close>

definition collect_file ::
    "env \<Rightarrow> path \<Rightarrow> file_view \<Rightarrow> (string \<times> string) list \<Rightarrow> world
       \<Rightarrow> (exn + (string \<times> string) list) \<times> world" where
  "collect_file e file_path v file_contents w =
     (case should_ignore file_path
             (case v of
                Unreachable \<Rightarrow> Inl (Exception (os_error e file_path))
              | _ \<Rightarrow> Inr False) of
        Inl ex \<Rightarrow> (Inl ex, w)
      | Inr ignored \<Rightarrow>
          if \<not> ignored \<and> is_text_file (guess_type e) file_path
          then
            (case v of
               Regular file_size outcome \<Rightarrow>
                 if file_size > MAX_FILE_SIZE
                 then (Inr file_contents,
                       print (''File '' @ str_path file_path @ '' is too large, skipping...'') w)
                 else
                   (case outcome of
                      Inl (Exception description) \<Rightarrow>
                        (Inr file_contents,
                         print (''Error reading file '' @ str_path file_path @ '': '' @
                                description) w)
                    | Inl (Interrupt description) \<Rightarrow> (Inl (Interrupt description), w)
                    | Inr content \<Rightarrow>
                        (Inr (dict_set (str_path file_path)
                                (if length content > MAX_CONTENT_LENGTH
                                 then take MAX_CONTENT_LENGTH content @ truncation_marker
                                 else content)
                                file_contents),
                         w))
             | _ \<Rightarrow>
                 (Inr file_contents,
                  print (''Error reading file '' @ str_path file_path @ '': '' @
                         os_error e file_path) w))
          else (Inr file_contents, w))"

fun files_loop ::
    "env \<Rightarrow> path \<Rightarrow> (string \<times> file_view) list \<Rightarrow> (string \<times> string) list \<Rightarrow> world
       \<Rightarrow> (exn + (string \<times> string) list) \<times> world" where
  "files_loop e current_dir [] file_contents w = (Inr file_contents, w)"
| "files_loop e current_dir ((file, v) # files) file_contents w =
     (case collect_file e (current_dir @ [file]) v file_contents w of
        (Inl ex, w') \<Rightarrow> (Inl ex, w')
      | (Inr file_contents', w') \<Rightarrow> files_loop e current_dir files file_contents' w')"

text \<open>
  \<open>os.walk\<close>, top down. The entries of a directory that are not directories, each with
  what \<open>stat\<close> finds there: a link to a directory counts as a directory when it can be
  followed.
\<close>

fun nondirs :: "bool \<Rightarrow> (string \<times> node) list \<Rightarrow> (string \<times> file_view) list" where
  "nondirs dir_searchable [] = []"
| "nondirs dir_searchable ((n, Dir rd sr es) # entries) = nondirs dir_searchable entries"
| "nondirs dir_searchable ((n, c) # entries) =
     (case stat_entry dir_searchable c of
        Found (File file_size outcome) \<Rightarrow> (n, Regular file_size outcome) # nondirs dir_searchable entries
      | Found _ \<Rightarrow> nondirs dir_searchable entries
      | NotFound \<Rightarrow> (n, Missing) # nondirs dir_searchable entries
      | Denied \<Rightarrow> (n, Unreachable) # nondirs dir_searchable entries)"

text \<open>
  A directory that cannot be read yields nothing. A directory that can be read yields
  its path with its files, then its sub-directories in order: those that are
  directories themselves, not links, and only when the directory can be searched.
\<close>

fun walk :: "path \<Rightarrow> node \<Rightarrow> (path \<times> (string \<times> file_view) list) list" where
  "walk dirpath (File file_size outcome) = []"
| "walk dirpath (Link t) = []"
| "walk dirpath (Dir rd sr es) =
     (if rd
      then (dirpath, nondirs sr es) #
           (if sr then concat (map (\<lambda>(n, c). walk (dirpath @ [n]) c) es) else [])
      else [])"

fun walk_loop ::
    "env \<Rightarrow> (path \<times> (string \<times> file_view) list) list \<Rightarrow> (string \<times> string) list \<Rightarrow> world
       \<Rightarrow> (exn + (string \<times> string) list) \<times> world" where
  "walk_loop e [] file_contents w = (Inr file_contents, w)"
| "walk_loop e ((current_dir, files) # later) file_contents w =
     (case should_ignore current_dir (Inr True) of
        Inl ex \<Rightarrow> (Inl ex, w)
      | Inr True \<Rightarrow> walk_loop e later file_contents w
      | Inr False \<Rightarrow>
          (case files_loop e current_dir files file_contents w of
             (Inl ex, w') \<Rightarrow> (Inl ex, w')
           | (Inr file_contents', w') \<Rightarrow> walk_loop e later file_contents' w'))"

text \<open>
  \<open>os.walk\<close> follows a link given as its starting point and ignores a starting point
  that cannot be scanned.
\<close>

definition read_project_files ::
    "env \<Rightarrow> node \<Rightarrow> path \<Rightarrow> world \<Rightarrow> (exn + (string \<times> string) list) \<times> world" where
  "read_project_files e fs project_folder w =
     (case stat_path fs project_folder of
        Found n \<Rightarrow> walk_loop e (walk project_folder n) [] w
      | NotFound \<Rightarrow> (Inr [], w)
      | Denied \<Rightarrow> (Inr [], w))"

subsection \<open>Writing and the main loop\<close>

text \<open>The exception that leaves \<open>save_readme\<close>, if any, and the world it leaves.\<close>

definition save_readme :: "env \<Rightarrow> path \<Rightarrow> string \<Rightarrow> world \<Rightarrow> exn option \<times> world" where
  "save_readme e project_folder readme_content w =
     (case open_write e (project_folder @ [''README.md'']) of
        Some (Exception description) \<Rightarrow>
          (None,
           print (''Error saving README.md to '' @ str_path project_folder @ '': '' @
                  description) w)
      | Some (Interrupt description) \<Rightarrow> (Some (Interrupt description), w)
      | None \<Rightarrow>
          (None,
           print (''README.md generated successfully in '' @ str_path project_folder)
             (w\<lparr>written := written w @ [(project_folder @ [''README.md''], readme_content)]\<rparr>)))"

text \<open>The body of the loop of \<open>main\<close> for one project folder.\<close>

definition process_folder :: "env \<Rightarrow> node \<Rightarrow> path \<Rightarrow> world \<Rightarrow> exn option \<times> world" where
  "process_folder e fs project_folder w =
     (case read_project_files e fs project_folder
             (print (''Processing folder: '' @ str_path project_folder) w) of
        (Inl ex, w1) \<Rightarrow> (Some ex, w1)
      | (Inr file_contents, w1) \<Rightarrow>
          if file_contents \<noteq> []
          then
            (case generate_readme_with_gemini e file_contents w1 of
               (Inl ex, w2) \<Rightarrow> (Some ex, w2)
             | (Inr readme_content, w2) \<Rightarrow> save_readme e project_folder readme_content w2)
          else (None,
                print (''No relevant files found in '' @ str_path project_folder @
                       ''. Skipping README generation.'') w1))"

text \<open>The loop of \<open>main\<close>: an exception that leaves the body ends it.\<close>

fun process_folders :: "env \<Rightarrow> node \<Rightarrow> path list \<Rightarrow> world \<Rightarrow> exn option \<times> world" where
  "process_folders e fs [] w = (None, w)"
| "process_folders e fs (project_folder # rest) w =
     (case process_folder e fs project_folder w of
        (Some ex, w') \<Rightarrow> (Some ex, w')
      | (None, w') \<Rightarrow> process_folders e fs rest w')"

text \<open>\<open>main\<close>: the exception it lets escape, if any, and the world it leaves.\<close>

definition main :: "env \<Rightarrow> node \<Rightarrow> path \<Rightarrow> world \<Rightarrow> exn option \<times> world" where
  "main e fs root_directory w =
     (case find_project_folders e fs root_directory w of
        (Inl ex, w') \<Rightarrow> (Some ex, w')
      | (Inr project_folders, w') \<Rightarrow>
          if project_folders = []
          then (None, print ''No valid project folders found.'' w')
          else process_folders e fs project_folders w')"

subsection \<open>Vocabulary of the properties\<close>

text \<open>The file blocks of a list of dictionary items, concatenated in order.\<close>

definition blocks :: "(string \<times> string) list \<Rightarrow> string" where
  "blocks fc = concat (map (\<lambda>(fp, content). file_block fp content) fc)"





text \<open>
  What the discovery loop does with one entry of a root directory that has been scanned.
  \<open>is_directory st\<close>: \<open>stat\<close> finds a directory. \<open>accepted_child\<close>: the entry is a
  directory (also through a link), its name is on neither ignore list, no part of the
  root path is on the folder ignore list, and \<open>stat\<close> finds nothing at its stop-marker
  path. \<open>refusal\<close>: the exception of the first query on the entry that is refused, if
  any: \<open>DirEntry.is_dir\<close> of a link, \<open>Path.is_dir\<close> of an entry whose name is on
  neither list, \<open>Path.exists\<close> of the stop-marker path.
\<close>

fun is_directory :: "stat_result \<Rightarrow> bool" where
  "is_directory (Found (Dir rd sr es)) = True"
| "is_directory st = False"

fun is_link :: "node \<Rightarrow> bool" where
  "is_link (Link t) = True"
| "is_link n = False"

fun is_file :: "node \<Rightarrow> bool" where
  "is_file (File file_size outcome) = True"
| "is_file n = False"

definition listed_name :: "string \<Rightarrow> bool" where
  "listed_name n = (n \<in> set IGNORE_FOLDERS \<or> n \<in> set IGNORE_FILES)"

definition accepted_child :: "path \<Rightarrow> bool \<Rightarrow> string \<times> node \<Rightarrow> bool" where
  "accepted_child root_dir root_searchable item =
     (is_directory (stat_entry root_searchable (snd item)) \<and>
      \<not> listed_name (fst item) \<and>
      \<not> list_ex (\<lambda>part. part \<in> set IGNORE_FOLDERS) root_dir \<and>
      stat_child (stat_entry root_searchable (snd item)) STOP_AUTOMATION_FOLDER = NotFound)"

definition refusal :: "env \<Rightarrow> path \<Rightarrow> bool \<Rightarrow> string \<times> node \<Rightarrow> exn option" where
  "refusal e root_dir root_searchable item =
     (if is_file (snd item) then None
      else if stat_entry root_searchable (snd item) = Denied
      then (if is_link (snd item) \<or> \<not> listed_name (fst item)
            then Some (Exception (os_error e (root_dir @ [fst item]))) else None)
      else if is_directory (stat_entry root_searchable (snd item)) \<and>
              \<not> listed_name (fst item) \<and>
              \<not> list_ex (\<lambda>part. part \<in> set IGNORE_FOLDERS) root_dir \<and>
              stat_child (stat_entry root_searchable (snd item)) STOP_AUTOMATION_FOLDER = Denied
      then Some (Exception (os_error e (root_dir @ [fst item, STOP_AUTOMATION_FOLDER])))
      else None)"

text \<open>
  The exception that ends the discovery loop: the refusal of the first entry that has
  one, provided no earlier entry has one.
\<close>

fun first_refusal :: "env \<Rightarrow> path \<Rightarrow> bool \<Rightarrow> (string \<times> node) list \<Rightarrow> exn option" where
  "first_refusal e root_dir root_searchable [] = None"
| "first_refusal e root_dir root_searchable (item # items) =
     (case refusal e root_dir root_searchable item of
        Some ex \<Rightarrow> Some ex
      | None \<Rightarrow> first_refusal e root_dir root_searchable items)"

text \<open>
  The files the File Collector visits, in order, with their paths: the entries that
  \<open>os.walk\<close> lists as files in the directories that are not ignored.
\<close>

definition visited :: "path \<Rightarrow> node \<Rightarrow> (path \<times> file_view) list" where
  "visited start_path n =
     concat (map (\<lambda>(dir, files).
                    if should_ignore dir (Inr True) = Inr False
                    then map (\<lambda>(f, v). (dir @ [f], v)) files else [])
               (walk start_path n))"

text \<open>
  The node reached from a directory by going down a relative path through directories
  that can be read and searched.
\<close>

fun reach :: "node \<Rightarrow> path \<Rightarrow> node option" where
  "reach n [] = Some n"
| "reach (Dir rd sr es) (part # rest) =
     (if rd \<and> sr then (case map_of es part of None \<Rightarrow> None | Some c \<Rightarrow> reach c rest)
      else None)"
| "reach (File file_size outcome) (part # rest) = None"
| "reach (Link t) (part # rest) = None"

text \<open>What the loop body stores for a visited file, if anything.\<close>

definition stored :: "env \<Rightarrow> path \<Rightarrow> file_view \<Rightarrow> string option" where
  "stored e p v =
     (if should_ignore p (Inr False) = Inr False \<and> is_text_file (guess_type e) p
      then (case v of
              Regular file_size (Inr content) \<Rightarrow>
                if file_size > MAX_FILE_SIZE then None
                else Some (if length content > MAX_CONTENT_LENGTH
                           then take MAX_CONTENT_LENGTH content @ truncation_marker
                           else content)
            | _ \<Rightarrow> None)
      else None)"

text \<open>The loop body run over a list of visited files, stopping at the first exception.\<close>

fun collect_all ::
    "env \<Rightarrow> (path \<times> file_view) list \<Rightarrow> (string \<times> string) list \<Rightarrow> world
       \<Rightarrow> (exn + (string \<times> string) list) \<times> world" where
  "collect_all e [] d w = (Inr d, w)"
| "collect_all e ((p, v) # rest) d w =
     (case collect_file e p v d w of
        (Inl ex, w') \<Rightarrow> (Inl ex, w')
      | (Inr d', w') \<Rightarrow> collect_all e rest d' w')"

subsection \<open>Examples\<close>

text \<open>A text of \<open>n\<close> characters.\<close>

definition filler :: "nat \<Rightarrow> string" where
  "filler n = replicate n (CHR ''x'')"

definition example_world :: world where
  "example_world = \<lparr>printed = [], invocations = 0, requests = [], written = []\<rparr>"

text \<open>
  An outside world in which nothing fails: no media type is known, the model is created,
  the service answers with a document, the README can be written.
\<close>

definition quiet_env :: env where
  "quiet_env = \<lparr>guess_type = (\<lambda>_. None), GenerativeModel = (\<lambda>_. None),
                generate_content = (\<lambda>_ _. Inr ''# Title''), open_write = (\<lambda>_. None),
                os_error = (\<lambda>p. ''cannot access '' @ str_path p)\<rparr>"

text \<open>
  An example project folder \<open>docs\<close>: a file one byte over the size cap, a file of exactly
  the size cap that holds as many one-byte characters, a small file, an ignored folder,
  and a sub-folder with a file of 40000 characters.
\<close>

definition docs_items :: "(string \<times> node) list" where
  "docs_items =
     [(''huge.txt'', File 100001 (Inr (filler 100001))),
      (''exact.txt'', File 100000 (Inr (filler 100000))),
      (''small.py'', File 50 (Inr (filler 50))),
      (''__pycache__'', Dir True True [(''cached.py'', File 10 (Inr (filler 10)))]),
      (''src'', Dir True True [(''long.md'', File 40000 (Inr (filler 40000)))])]"

text \<open>
  An example repository root: the tool's own folder, a project, a project that holds a
  plain file named \<open>.stopautomation\<close>, a project that holds a dangling link of that
  name, a folder with one binary file, the folder \<open>docs\<close>, and a regular file.
\<close>

definition repo_items :: "(string \<times> node) list" where
  "repo_items =
     [(''automation'', Dir True True [(''generate_readme.py'', File 60 (Inr (filler 60)))]),
      (''good_project'', Dir True True [(''app.py'', File 50 (Inr (filler 50)))]),
      (''paused'', Dir True True [(''.stopautomation'', File 0 (Inr [])),
                                 (''main.py'', File 10 (Inr (filler 10)))]),
      (''linked'', Dir True True [(''.stopautomation'', Link Dangling),
                                 (''main.py'', File 10 (Inr (filler 10)))]),
      (''assets'', Dir True True
         [(''logo.png'', File 20 (Inl (Exception ''invalid start byte'')))]),
      (''docs'', Dir True True docs_items),
      (''notes.txt'', File 12 (Inr (filler 12)))]"

definition example_fs :: node where
  "example_fs = Dir True True [(''repo'', Dir True True repo_items)]"

text \<open>What the File Collector returns for the folder \<open>docs\<close>.\<close>

definition docs_contents :: "(string \<times> string) list" where
  "docs_contents =
     [(''/repo/docs/exact.txt'', take 30000 (filler 100000) @ truncation_marker),
      (''/repo/docs/small.py'', filler 50),
      (''/repo/docs/src/long.md'', take 30000 (filler 40000) @ truncation_marker)]"

text \<open>
  A repository root with a project folder that can be listed but not searched.
\<close>

definition locked_items :: "(string \<times> node) list" where
  "locked_items =
     [(''good_project'', Dir True True [(''app.py'', File 50 (Inr (filler 50)))]),
      (''locked'', Dir True False [(''main.py'', File 10 (Inr (filler 10)))])]"

definition locked_fs :: node where
  "locked_fs = Dir True True [(''repo'', Dir True True locked_items)]"

text \<open>
  Two collected files: the block of the first one fills the prompt to exactly 30000
  characters, so the second one is skipped.
\<close>

definition two_files :: "(string \<times> string) list" where
  "two_files = [(''/p/a.py'', filler 29149), (''/p/b.py'', ''y'')]"

text \<open>One collected file whose block alone is longer than the cap.\<close>

definition one_big_file :: "(string \<times> string) list" where
  "one_big_file = [(''/p/a.py'', filler 30000)]"

text \<open>
  A world in which the service call raises an authentication error, one in which the
  creation of the model raises, and one in which the service call is interrupted from
  the keyboard (\<open>str(KeyboardInterrupt())\<close> is empty).
\<close>

definition auth_failure_env :: env where
  "auth_failure_env = quiet_env\<lparr>generate_content :=
       (\<lambda>_ _. Inl (Exception ''401 API key not valid''))\<rparr>"

definition init_failure_env :: env where
  "init_failure_env = quiet_env\<lparr>GenerativeModel :=
       (\<lambda>_. Some (Exception ''model not found''))\<rparr>"

definition interrupt_env :: env where
  "interrupt_env = quiet_env\<lparr>generate_content := (\<lambda>_ _. Inl (Interrupt []))\<rparr>"

text \<open>What the File Collector returns for the folder \<open>good_project\<close> of the example.\<close>

definition one_small_file :: "(string \<times> string) list" where
  "one_small_file = [(''/repo/good_project/app.py'', filler 50)]"

section \<open>Properties\<close>

subsection \<open>The loops of the collector\<close>

lemma map_of_dict_set: "map_of (dict_set k v d) = (map_of d)(k \<mapsto> v)"
  by (induction d) (auto simp: fun_eq_iff)

lemma should_ignore_file_cases:
  "should_ignore p (Inr False) = Inr (listed_name (name p))"
  by (simp add: should_ignore_def listed_name_def)

lemma should_ignore_unreachable:
  "should_ignore p (Inl ex) = (if listed_name (name p) then Inr True else Inl ex)"
  by (simp add: should_ignore_def listed_name_def)

text \<open>One step of the loop body, when it does not raise.\<close>

lemma collect_file_lookup:
  assumes "collect_file e p v d w = (Inr d', w')"
  shows "map_of d' =
     (case stored e p v of None \<Rightarrow> map_of d | Some s \<Rightarrow> (map_of d)(str_path p \<mapsto> s))"
proof (cases v)
  case (Regular file_size outcome)
  show ?thesis
  proof (cases outcome)
    case (Inl ex)
    then show ?thesis using assms Regular
      by (cases ex)
         (auto simp: collect_file_def stored_def should_ignore_file_cases split: if_splits)
  next
    case (Inr content)
    then show ?thesis using assms Regular
      by (auto simp: collect_file_def stored_def should_ignore_file_cases map_of_dict_set
            split: if_splits)
  qed
next
  case Missing
  then show ?thesis using assms
    by (auto simp: collect_file_def stored_def should_ignore_file_cases split: if_splits)
next
  case Unreachable
  then show ?thesis using assms
    by (auto simp: collect_file_def stored_def should_ignore_file_cases
          should_ignore_unreachable split: if_splits)
qed

lemma collect_all_other_key:
  assumes "collect_all e L d w = (Inr d', w')" "k \<notin> (\<lambda>x. str_path (fst x)) ` set L"
  shows "map_of d' k = map_of d k"
  using assms
proof (induction L arbitrary: d w)
  case Nil
  then show ?case by simp
next
  case (Cons x L)
  obtain p v where x: "x = (p, v)" by (cases x)
  from Cons.prems(1) obtain d1 w1 where
    s: "collect_file e p v d w = (Inr d1, w1)" and r: "collect_all e L d1 w1 = (Inr d', w')"
    by (auto simp: x split: prod.splits sum.splits)
  have k: "k \<noteq> str_path p" "k \<notin> (\<lambda>x. str_path (fst x)) ` set L"
    using Cons.prems(2) by (auto simp: x)
  have "map_of d1 k = map_of d k"
    using collect_file_lookup[OF s] k(1) by (simp split: option.splits)
  with Cons.IH[OF r k(2)] show ?case by simp
qed

lemma collect_all_lookup:
  assumes "collect_all e L d w = (Inr d', w')"
    "distinct (map (\<lambda>x. str_path (fst x)) L)" "(p, v) \<in> set L"
  shows "map_of d' (str_path p) =
     (case stored e p v of None \<Rightarrow> map_of d (str_path p) | Some s \<Rightarrow> Some s)"
  using assms
proof (induction L arbitrary: d w)
  case Nil
  then show ?case by simp
next
  case (Cons x L)
  obtain q u where x: "x = (q, u)" by (cases x)
  from Cons.prems(1) obtain d1 w1 where
    s: "collect_file e q u d w = (Inr d1, w1)" and r: "collect_all e L d1 w1 = (Inr d', w')"
    by (auto simp: x split: prod.splits sum.splits)
  have dist: "str_path q \<notin> (\<lambda>x. str_path (fst x)) ` set L"
    "distinct (map (\<lambda>x. str_path (fst x)) L)"
    using Cons.prems(2) by (auto simp: x)
  show ?case
  proof (cases "(p, v) = (q, u)")
    case True
    then have "map_of d' (str_path p) = map_of d1 (str_path p)"
      using collect_all_other_key[OF r] dist(1) by simp
    then show ?thesis using collect_file_lookup[OF s] True
      by (simp split: option.splits)
  next
    case False
    then have mem: "(p, v) \<in> set L" using Cons.prems(3) by (auto simp: x)
    have "str_path (fst (p, v)) \<in> (\<lambda>x. str_path (fst x)) ` set L"
      using mem by (rule imageI)
    then have ne: "str_path q \<noteq> str_path p" using dist(1) by (metis fst_conv)
    have "map_of d1 (str_path p) = map_of d (str_path p)"
      using collect_file_lookup[OF s] ne by (simp split: option.splits)
    with Cons.IH[OF r dist(2) mem] show ?thesis by (simp split: option.splits)
  qed
qed

text \<open>The two loops of the collector are the loop body run over the visited files.\<close>

lemma collect_all_append:
  "collect_all e (xs @ ys) d w =
     (case collect_all e xs d w of
        (Inl ex, w') \<Rightarrow> (Inl ex, w')
      | (Inr d', w') \<Rightarrow> collect_all e ys d' w')"
  by (induction xs arbitrary: d w) (auto split: prod.splits sum.splits)

lemma files_loop_collect_all:
  "files_loop e dir files d w = collect_all e (map (\<lambda>(f, v). (dir @ [f], v)) files) d w"
  by (induction files arbitrary: d w) (auto split: prod.splits sum.splits)

lemma should_ignore_dir_cases:
  "should_ignore dir (Inr True) = Inr True \<or> should_ignore dir (Inr True) = Inr False"
  by (simp add: should_ignore_def)

lemma walk_loop_collect_all:
  "walk_loop e ds d w =
     collect_all e
       (concat (map (\<lambda>(dir, files).
                    if should_ignore dir (Inr True) = Inr False
                    then map (\<lambda>(f, v). (dir @ [f], v)) files else []) ds)) d w"
proof (induction ds arbitrary: d w)
  case Nil
  then show ?case by simp
next
  case (Cons x ds)
  obtain dir files where x: "x = (dir, files)" by (cases x)
  from should_ignore_dir_cases[of dir] show ?case
  proof
    assume i: "should_ignore dir (Inr True) = Inr True"
    then show ?thesis by (simp add: x Cons.IH)
  next
    assume i: "should_ignore dir (Inr True) = Inr False"
    then show ?thesis
      by (simp add: x Cons.IH collect_all_append files_loop_collect_all
            split: prod.splits sum.splits)
  qed
qed

lemma read_project_files_visited:
  "stat_path fs project_folder = Found start \<Longrightarrow>
   read_project_files e fs project_folder w = collect_all e (visited project_folder start) [] w"
  by (simp add: read_project_files_def visited_def walk_loop_collect_all)

lemma nondirs_file:
  "(f, c) \<in> set es \<Longrightarrow> follow c = Found (File file_size outcome) \<Longrightarrow>
   (f, Regular file_size outcome) \<in> set (nondirs True es)"
proof (induction es)
  case Nil
  then show ?case by simp
next
  case (Cons x es)
  obtain n c' where x: "x = (n, c')" by (cases x)
  show ?case
  proof (cases c')
    case (File sz out)
    then show ?thesis using Cons by (auto simp: x stat_entry_def)
  next
    case (Dir rd sr cs)
    then show ?thesis using Cons by (auto simp: x)
  next
    case (Link t)
    then show ?thesis using Cons
      by (auto simp: x stat_entry_def split: stat_result.splits node.splits)
  qed
qed

lemma reach_walk:
  "reach n rel = Some (Dir True sr es) \<Longrightarrow> (p @ rel, nondirs sr es) \<in> set (walk p n)"
proof (induction rel arbitrary: n p)
  case Nil
  then show ?case by simp
next
  case (Cons part rest)
  show ?case
  proof (cases n)
    case (File sz out)
    then show ?thesis using Cons.prems by simp
  next
    case (Link t)
    then show ?thesis using Cons.prems by simp
  next
    case (Dir rd sr' cs)
    with Cons.prems obtain c where
      ok: "rd" "sr'" and c: "map_of cs part = Some c"
      and r: "reach c rest = Some (Dir True sr es)"
      by (auto split: if_splits option.splits)
    have mem: "(part, c) \<in> set cs" using c by (rule map_of_SomeD)
    have "((p @ [part]) @ rest, nondirs sr es) \<in> set (walk (p @ [part]) c)"
      by (rule Cons.IH[OF r])
    then show ?thesis using mem ok by (auto simp: Dir intro!: bexI[of _ "(part, c)"])
  qed
qed

lemma visited_file:
  assumes "reach start rel = Some (Dir True True es)"
    "(file, c) \<in> set es" "follow c = Found (File file_size outcome)"
    "should_ignore (project_folder @ rel) (Inr True) = Inr False"
  shows "(project_folder @ rel @ [file], Regular file_size outcome)
           \<in> set (visited project_folder start)"
proof -
  have w: "(project_folder @ rel, nondirs True es) \<in> set (walk project_folder start)"
    by (rule reach_walk[OF assms(1)])
  have f: "(file, Regular file_size outcome) \<in> set (nondirs True es)"
    by (rule nondirs_file[OF assms(2,3)])
  show ?thesis
    unfolding visited_def set_concat set_map
    using w f assms(4)
    by (auto intro!: bexI[of _ "(project_folder @ rel, nondirs True es)"]
                     bexI[of _ "(file, Regular file_size outcome)"])
qed

text \<open>
  The collector returns a dictionary unless a visited file raises outside the \<open>try\<close>
  (its \<open>is_dir\<close> is refused and its name is on neither ignore list) or its reading is
  interrupted.
\<close>

lemma collect_file_returns:
  assumes "v = Unreachable \<longrightarrow> listed_name (name p)"
    and "\<forall>file_size d. v \<noteq> Regular file_size (Inl (Interrupt d))"
  shows "\<exists>d' w'. collect_file e p v d w = (Inr d', w')"
proof (cases v)
  case (Regular file_size outcome)
  show ?thesis
  proof (cases outcome)
    case (Inl ex)
    then show ?thesis using assms(2) Regular
      by (cases ex) (auto simp: collect_file_def should_ignore_file_cases)
  next
    case (Inr content)
    then show ?thesis using Regular
      by (auto simp: collect_file_def should_ignore_file_cases)
  qed
next
  case Missing
  then show ?thesis by (auto simp: collect_file_def should_ignore_file_cases)
next
  case Unreachable
  then show ?thesis using assms(1)
    by (auto simp: collect_file_def should_ignore_unreachable)
qed

lemma collect_all_returns:
  assumes "\<forall>x \<in> set L. (snd x = Unreachable \<longrightarrow> listed_name (name (fst x))) \<and>
                        (\<forall>file_size d. snd x \<noteq> Regular file_size (Inl (Interrupt d)))"
  shows "\<exists>d' w'. collect_all e L d w = (Inr d', w')"
  using assms
proof (induction L arbitrary: d w)
  case Nil
  then show ?case by simp
next
  case (Cons x L)
  obtain p v where x: "x = (p, v)" by (cases x)
  have "\<exists>d1 w1. collect_file e p v d w = (Inr d1, w1)"
    using Cons.prems by (intro collect_file_returns) (auto simp: x)
  then obtain d1 w1 where s: "collect_file e p v d w = (Inr d1, w1)" by blast
  have "\<exists>d' w'. collect_all e L d1 w1 = (Inr d', w')"
    using Cons.prems by (intro Cons.IH) auto
  then show ?case by (simp add: x s)
qed

lemma read_project_files_returns:
  assumes "\<forall>start. stat_path fs project_folder = Found start \<longrightarrow>
           (\<forall>x \<in> set (visited project_folder start).
              (snd x = Unreachable \<longrightarrow> listed_name (name (fst x))) \<and>
              (\<forall>file_size d. snd x \<noteq> Regular file_size (Inl (Interrupt d))))"
  shows "\<exists>file_contents. fst (read_project_files e fs project_folder w) = Inr file_contents"
proof (cases "stat_path fs project_folder")
  case (Found start')
  then have "\<exists>d' w'. collect_all e (visited project_folder start') [] w = (Inr d', w')"
    using assms by (intro collect_all_returns) simp
  then show ?thesis unfolding read_project_files_visited[OF Found] by auto
next
  case NotFound
  then show ?thesis by (simp add: read_project_files_def)
next
  case Denied
  then show ?thesis by (simp add: read_project_files_def)
qed

text \<open>
  The entry of the returned dictionary for a regular file that lies in a directory the
  collector walks and does not ignore.
\<close>

lemma collector_entry:
  assumes "stat_path fs project_folder = Found start"
    and "reach start rel = Some (Dir True True es)"
    and "(file, c) \<in> set es"
    and "follow c = Found (File file_size outcome)"
    and "should_ignore (project_folder @ rel) (Inr True) = Inr False"
    and "distinct (map (\<lambda>x. str_path (fst x)) (visited project_folder start))"
    and "fst (read_project_files e fs project_folder w) = Inr file_contents"
  shows "map_of file_contents (str_path (project_folder @ rel @ [file])) =
           stored e (project_folder @ rel @ [file]) (Regular file_size outcome)"
proof -
  obtain w' where r: "collect_all e (visited project_folder start) [] w = (Inr file_contents, w')"
    using assms(7) unfolding read_project_files_visited[OF assms(1)]
    by (cases "collect_all e (visited project_folder start) [] w") simp
  have v: "(project_folder @ rel @ [file], Regular file_size outcome)
           \<in> set (visited project_folder start)"
    by (rule visited_file[OF assms(2,3,4,5)])
  show ?thesis
    using collect_all_lookup[OF r assms(6) v] by (simp split: option.splits)
qed

subsection \<open>The collector on the example\<close>

lemma length_filler: "length (filler n) = n"
  by (simp only: filler_def length_replicate)

lemma stat_docs: "stat_path example_fs [''repo'', ''docs''] = Found (Dir True True docs_items)"
  by (simp add: example_fs_def repo_items_def)

lemma visited_docs:
  "visited [''repo'', ''docs''] (Dir True True docs_items) =
     [([''repo'', ''docs'', ''huge.txt''], Regular 100001 (Inr (filler 100001))),
      ([''repo'', ''docs'', ''exact.txt''], Regular 100000 (Inr (filler 100000))),
      ([''repo'', ''docs'', ''small.py''], Regular 50 (Inr (filler 50))),
      ([''repo'', ''docs'', ''src'', ''long.md''], Regular 40000 (Inr (filler 40000)))]"
  by (simp add: visited_def docs_items_def stat_entry_def should_ignore_def name_def
        IGNORE_FOLDERS_def IGNORE_FILES_def)

lemma text_names:
  "is_text_file (guess_type quiet_env) [''repo'', ''docs'', ''huge.txt'']"
  "is_text_file (guess_type quiet_env) [''repo'', ''docs'', ''exact.txt'']"
  "is_text_file (guess_type quiet_env) [''repo'', ''docs'', ''small.py'']"
  "is_text_file (guess_type quiet_env) [''repo'', ''docs'', ''src'', ''long.md'']"
  by (simp_all add: is_text_file_def quiet_env_def suffix_def name_def lower_def lower_char_def
        text_extensions_def)

lemma unlisted_names:
  "should_ignore [''repo'', ''docs'', ''huge.txt''] (Inr False) = Inr False"
  "should_ignore [''repo'', ''docs'', ''exact.txt''] (Inr False) = Inr False"
  "should_ignore [''repo'', ''docs'', ''small.py''] (Inr False) = Inr False"
  "should_ignore [''repo'', ''docs'', ''src'', ''long.md''] (Inr False) = Inr False"
  "should_ignore [''repo'', ''docs''] (Inr True) = Inr False"
  "should_ignore [''repo'', ''docs'', ''src''] (Inr True) = Inr False"
  by (simp_all add: should_ignore_def name_def IGNORE_FOLDERS_def IGNORE_FILES_def)

lemma read_docs:
  "fst (read_project_files quiet_env example_fs [''repo'', ''docs''] w) = Inr docs_contents"
  unfolding read_project_files_visited[OF stat_docs] visited_docs
  by (simp add: collect_file_def text_names unlisted_names length_filler MAX_FILE_SIZE_def
        MAX_CONTENT_LENGTH_def str_path_def docs_contents_def)

lemma distinct_docs:
  "distinct (map (\<lambda>x. str_path (fst x)) (visited [''repo'', ''docs''] (Dir True True docs_items)))"
  unfolding visited_docs by (simp add: str_path_def)

lemma reach_docs_src:
  "reach (Dir True True docs_items) [''src''] =
     Some (Dir True True [(''long.md'', File 40000 (Inr (filler 40000)))])"
  by (simp add: docs_items_def)

lemma reach_docs_top: "reach (Dir True True docs_items) [] = Some (Dir True True docs_items)"
  by simp

lemma docs_members:
  "(''huge.txt'', File 100001 (Inr (filler 100001))) \<in> set docs_items"
  "(''exact.txt'', File 100000 (Inr (filler 100000))) \<in> set docs_items"
  "(''small.py'', File 50 (Inr (filler 50))) \<in> set docs_items"
  by (simp_all add: docs_items_def)

lemma exact_not_unmodified:
  "take 30000 (filler 100000) @ truncation_marker \<noteq> filler 100000"
proof
  assume "take 30000 (filler 100000) @ truncation_marker = filler 100000"
  then have "length (take 30000 (filler 100000) @ truncation_marker) = length (filler 100000)"
    by (rule arg_cong)
  then show False by (simp add: length_filler truncation_marker_def)
qed

subsection \<open>Truncation and the size cap\<close>

text \<open>
  C6. Take a regular file, listed in its directory directly or through a symbolic link,
  that lies in a directory the collector walks (reached from the project folder through
  directories that can be read and searched) and does not ignore, whose own name is on
  neither ignore list, that the classifier takes for text and whose size is within the
  size cap. If its decoded text has more than 30000 characters, the dictionary that
  \<open>read_project_files\<close> returns holds under its path the first 30000 characters of the
  text followed by the truncation marker. The visited files are assumed to have pairwise
  different path strings, as the entries of a file system have.
\<close>

theorem C6_truncation:
  assumes "stat_path fs project_folder = Found start"
    and "reach start rel = Some (Dir True True es)"
    and "(file, entry) \<in> set es"
    and "follow entry = Found (File file_size (Inr content))"
    and "should_ignore (project_folder @ rel) (Inr True) = Inr False"
    and "should_ignore (project_folder @ rel @ [file]) (Inr False) = Inr False"
    and "is_text_file (guess_type e) (project_folder @ rel @ [file])"
    and "file_size \<le> MAX_FILE_SIZE"
    and "distinct (map (\<lambda>x. str_path (fst x)) (visited project_folder start))"
    and "fst (read_project_files e fs project_folder w) = Inr file_contents"
    and "length content > 30000"
  shows "map_of file_contents (str_path (project_folder @ rel @ [file])) =
           Some (take 30000 content @ ''\<newline>... (content truncated due to length)'')"
  using collector_entry[OF assms(1,2,3,4,5,9,10)] assms(6,7,8,11)
  by (simp add: stored_def MAX_CONTENT_LENGTH_def truncation_marker_def)

text \<open>
  The file \<open>docs/src/long.md\<close> of the example has 40000 characters and is stored as its
  first 30000 characters and the marker.
\<close>

theorem C6_truncation_witness:
  "stat_path example_fs [''repo'', ''docs''] = Found (Dir True True docs_items) \<and>
   reach (Dir True True docs_items) [''src''] =
     Some (Dir True True [(''long.md'', File 40000 (Inr (filler 40000)))]) \<and>
   (''long.md'', File 40000 (Inr (filler 40000))) \<in>
     set [(''long.md'', File 40000 (Inr (filler 40000)))] \<and>
   follow (File 40000 (Inr (filler 40000))) = Found (File 40000 (Inr (filler 40000))) \<and>
   should_ignore [''repo'', ''docs'', ''src''] (Inr True) = Inr False \<and>
   should_ignore [''repo'', ''docs'', ''src'', ''long.md''] (Inr False) = Inr False \<and>
   is_text_file (guess_type quiet_env) [''repo'', ''docs'', ''src'', ''long.md''] \<and>
   40000 \<le> MAX_FILE_SIZE \<and>
   distinct (map (\<lambda>x. str_path (fst x))
               (visited [''repo'', ''docs''] (Dir True True docs_items))) \<and>
   fst (read_project_files quiet_env example_fs [''repo'', ''docs''] example_world) =
     Inr docs_contents \<and>
   length (filler 40000) > 30000 \<and>
   map_of docs_contents (str_path [''repo'', ''docs'', ''src'', ''long.md'']) =
     Some (take 30000 (filler 40000) @ ''\<newline>... (content truncated due to length)'')"
proof -
  have m: "(''long.md'', File 40000 (Inr (filler 40000))) \<in>
     set [(''long.md'', File 40000 (Inr (filler 40000)))]" by simp
  have d: "should_ignore ([''repo'', ''docs''] @ [''src'']) (Inr True) = Inr False"
    by (simp add: unlisted_names)
  have f: "should_ignore ([''repo'', ''docs''] @ [''src''] @ [''long.md'']) (Inr False) = Inr False"
    by (simp add: unlisted_names)
  have t: "is_text_file (guess_type quiet_env) ([''repo'', ''docs''] @ [''src''] @ [''long.md''])"
    by (simp add: text_names)
  have s: "(40000::nat) \<le> MAX_FILE_SIZE" by (simp add: MAX_FILE_SIZE_def)
  have l: "length (filler 40000) > 30000" by (simp add: length_filler)
  have c: "map_of docs_contents (str_path ([''repo'', ''docs''] @ [''src''] @ [''long.md''])) =
     Some (take 30000 (filler 40000) @ ''\<newline>... (content truncated due to length)'')"
    by (rule C6_truncation[OF stat_docs reach_docs_src m follow.simps(4) d f t s distinct_docs
          read_docs l])
  show ?thesis
    using stat_docs reach_docs_src m unlisted_names(4,6) text_names(4) s distinct_docs
      read_docs[of example_world] l c
    by simp
qed

text \<open>
  C2, as stated, fails: the file \<open>exact.txt\<close> of the folder \<open>docs\<close> has exactly 100000
  bytes, the size cap, all of them one-byte characters; it is collected, but not with
  its content unmodified. The file \<open>huge.txt\<close>, one byte over the cap, is not stored
  truncated: it is not stored at all.
\<close>

theorem C2_counterexample:
  "fst (read_project_files quiet_env example_fs [''repo'', ''docs''] example_world) =
     Inr docs_contents \<and>
   (''exact.txt'', File 100000 (Inr (filler 100000))) \<in> set docs_items \<and>
   MAX_FILE_SIZE = 100000 \<and> length (filler 100000) = 100000 \<and>
   map_of docs_contents ''/repo/docs/exact.txt'' \<noteq> Some (filler 100000) \<and>
   (''huge.txt'', File 100001 (Inr (filler 100001))) \<in> set docs_items \<and>
   map_of docs_contents ''/repo/docs/huge.txt'' = None"
  using read_docs[of example_world] docs_members(1,2) exact_not_unmodified
  by (simp add: docs_contents_def MAX_FILE_SIZE_def length_filler)

text \<open>
  C2, amended. Take a regular file, listed directly or through a symbolic link, in a
  directory the collector walks and does not ignore, whose own name is on neither ignore
  list and that the classifier takes for text. In the dictionary that
  \<open>read_project_files\<close> returns: if its size is strictly above the size cap of 100000
  bytes there is no entry for its path; if its size is at most the cap and it decodes,
  the entry is its text when that has at most 30000 characters (the content cap), and
  otherwise the first 30000 characters followed by the truncation marker, of length
  30000 plus the length of the marker.
\<close>

theorem C2_size_cap:
  assumes "stat_path fs project_folder = Found start"
    and "reach start rel = Some (Dir True True es)"
    and "(file, entry) \<in> set es"
    and "follow entry = Found (File file_size outcome)"
    and "should_ignore (project_folder @ rel) (Inr True) = Inr False"
    and "should_ignore (project_folder @ rel @ [file]) (Inr False) = Inr False"
    and "is_text_file (guess_type e) (project_folder @ rel @ [file])"
    and "distinct (map (\<lambda>x. str_path (fst x)) (visited project_folder start))"
    and "fst (read_project_files e fs project_folder w) = Inr file_contents"
  shows "(file_size > MAX_FILE_SIZE \<longrightarrow>
            map_of file_contents (str_path (project_folder @ rel @ [file])) = None) \<and>
         (file_size \<le> MAX_FILE_SIZE \<and> outcome = Inr content \<and>
          length content \<le> MAX_CONTENT_LENGTH \<longrightarrow>
            map_of file_contents (str_path (project_folder @ rel @ [file])) = Some content) \<and>
         (file_size \<le> MAX_FILE_SIZE \<and> outcome = Inr content \<and>
          length content > MAX_CONTENT_LENGTH \<longrightarrow>
            map_of file_contents (str_path (project_folder @ rel @ [file])) =
              Some (take MAX_CONTENT_LENGTH content @ truncation_marker) \<and>
            length (take MAX_CONTENT_LENGTH content @ truncation_marker) =
              MAX_CONTENT_LENGTH + length truncation_marker)"
  using collector_entry[OF assms(1,2,3,4,5,8,9)] assms(6,7)
  by (auto simp: stored_def split: sum.splits)

text \<open>
  The three cases in the folder \<open>docs\<close> of the example: \<open>huge.txt\<close> of 100001 bytes,
  \<open>small.py\<close> of 50 bytes, \<open>exact.txt\<close> of 100000 bytes and as many characters.
\<close>

theorem C2_size_cap_witness:
  "(stat_path example_fs [''repo'', ''docs''] = Found (Dir True True docs_items) \<and>
    reach (Dir True True docs_items) [] = Some (Dir True True docs_items) \<and>
    should_ignore [''repo'', ''docs''] (Inr True) = Inr False \<and>
    distinct (map (\<lambda>x. str_path (fst x))
                (visited [''repo'', ''docs''] (Dir True True docs_items))) \<and>
    fst (read_project_files quiet_env example_fs [''repo'', ''docs''] example_world) =
      Inr docs_contents) \<and>
   ((''huge.txt'', File 100001 (Inr (filler 100001))) \<in> set docs_items \<and>
    follow (File 100001 (Inr (filler 100001))) = Found (File 100001 (Inr (filler 100001))) \<and>
    should_ignore [''repo'', ''docs'', ''huge.txt''] (Inr False) = Inr False \<and>
    is_text_file (guess_type quiet_env) [''repo'', ''docs'', ''huge.txt''] \<and>
    100001 > MAX_FILE_SIZE \<and>
    map_of docs_contents (str_path [''repo'', ''docs'', ''huge.txt'']) = None) \<and>
   ((''small.py'', File 50 (Inr (filler 50))) \<in> set docs_items \<and>
    follow (File 50 (Inr (filler 50))) = Found (File 50 (Inr (filler 50))) \<and>
    should_ignore [''repo'', ''docs'', ''small.py''] (Inr False) = Inr False \<and>
    is_text_file (guess_type quiet_env) [''repo'', ''docs'', ''small.py''] \<and>
    50 \<le> MAX_FILE_SIZE \<and> length (filler 50) \<le> MAX_CONTENT_LENGTH \<and>
    map_of docs_contents (str_path [''repo'', ''docs'', ''small.py'']) = Some (filler 50)) \<and>
   ((''exact.txt'', File 100000 (Inr (filler 100000))) \<in> set docs_items \<and>
    follow (File 100000 (Inr (filler 100000))) = Found (File 100000 (Inr (filler 100000))) \<and>
    should_ignore [''repo'', ''docs'', ''exact.txt''] (Inr False) = Inr False \<and>
    is_text_file (guess_type quiet_env) [''repo'', ''docs'', ''exact.txt''] \<and>
    100000 \<le> MAX_FILE_SIZE \<and> length (filler 100000) > MAX_CONTENT_LENGTH \<and>
    map_of docs_contents (str_path [''repo'', ''docs'', ''exact.txt'']) =
      Some (take MAX_CONTENT_LENGTH (filler 100000) @ truncation_marker) \<and>
    length (take MAX_CONTENT_LENGTH (filler 100000) @ truncation_marker) =
      MAX_CONTENT_LENGTH + length truncation_marker)"
proof -
  have d: "should_ignore ([''repo'', ''docs''] @ []) (Inr True) = Inr False"
    by (simp add: unlisted_names)
  have f1: "should_ignore ([''repo'', ''docs''] @ [] @ [''huge.txt'']) (Inr False) = Inr False"
    and f2: "should_ignore ([''repo'', ''docs''] @ [] @ [''small.py'']) (Inr False) = Inr False"
    and f3: "should_ignore ([''repo'', ''docs''] @ [] @ [''exact.txt'']) (Inr False) = Inr False"
    by (simp_all add: unlisted_names)
  have t1: "is_text_file (guess_type quiet_env) ([''repo'', ''docs''] @ [] @ [''huge.txt''])"
    and t2: "is_text_file (guess_type quiet_env) ([''repo'', ''docs''] @ [] @ [''small.py''])"
    and t3: "is_text_file (guess_type quiet_env) ([''repo'', ''docs''] @ [] @ [''exact.txt''])"
    by (simp_all add: text_names)
  note c1 = C2_size_cap[where content = "filler 100001" and w = example_world,
               OF stat_docs reach_docs_top docs_members(1) follow.simps(4) d f1 t1 distinct_docs
               read_docs[of example_world]]
  note c2 = C2_size_cap[where content = "filler 50" and w = example_world,
               OF stat_docs reach_docs_top docs_members(3) follow.simps(4) d f2 t2 distinct_docs
               read_docs[of example_world]]
  note c3 = C2_size_cap[where content = "filler 100000" and w = example_world,
               OF stat_docs reach_docs_top docs_members(2) follow.simps(4) d f3 t3 distinct_docs
               read_docs[of example_world]]
  show ?thesis
    using stat_docs reach_docs_top unlisted_names text_names distinct_docs
      read_docs[of example_world] docs_members c1 c2 c3
    by (simp add: MAX_FILE_SIZE_def MAX_CONTENT_LENGTH_def length_filler)
qed

subsection \<open>The discovery loop\<close>

lemma should_ignore_item:
  "should_ignore (root_dir @ [n]) x =
     (if listed_name n then Inr True
      else (case x of
              Inl ex \<Rightarrow> Inl ex
            | Inr d \<Rightarrow> Inr (d \<and> list_ex (\<lambda>part. part \<in> set IGNORE_FOLDERS) root_dir)))"
  by (auto simp: should_ignore_def listed_name_def name_def list_ex_iff split: sum.splits)

lemma follow_not_link: "follow n = Found m \<Longrightarrow> \<not> is_link m"
  by (induction n rule: follow.induct) auto

lemma accepted_child_pair:
  "accepted_child root_dir sr (n, c) =
     (is_directory (stat_entry sr c) \<and> \<not> listed_name n \<and>
      \<not> list_ex (\<lambda>part. part \<in> set IGNORE_FOLDERS) root_dir \<and>
      stat_child (stat_entry sr c) STOP_AUTOMATION_FOLDER = NotFound)"
  by (simp add: accepted_child_def)

lemma refusal_pair:
  "refusal e root_dir sr (n, c) =
     (if is_file c then None
      else if stat_entry sr c = Denied
      then (if is_link c \<or> \<not> listed_name n
            then Some (Exception (os_error e (root_dir @ [n]))) else None)
      else if is_directory (stat_entry sr c) \<and> \<not> listed_name n \<and>
              \<not> list_ex (\<lambda>part. part \<in> set IGNORE_FOLDERS) root_dir \<and>
              stat_child (stat_entry sr c) STOP_AUTOMATION_FOLDER = Denied
      then Some (Exception (os_error e (root_dir @ [n, STOP_AUTOMATION_FOLDER])))
      else None)"
  by (simp add: refusal_def)

lemma scan_loop_Cons:
  "scan_loop e root_dir sr ((n, c) # items) acc w =
     (case entry_is_dir e (root_dir @ [n]) sr c of
        Inl ex \<Rightarrow> (Inl ex, w)
      | Inr d \<Rightarrow>
          if \<not> d then scan_loop e root_dir sr items acc w
          else
            (case should_ignore (root_dir @ [n])
                    (path_is_dir e (root_dir @ [n]) (stat_entry sr c)) of
               Inl ex \<Rightarrow> (Inl ex, w)
             | Inr i \<Rightarrow>
                 if i then scan_loop e root_dir sr items acc w
                 else
                   (case path_exists e (root_dir @ [n, STOP_AUTOMATION_FOLDER])
                           (stat_child (stat_entry sr c) STOP_AUTOMATION_FOLDER) of
                      Inl ex \<Rightarrow> (Inl ex, w)
                    | Inr x \<Rightarrow>
                        if x
                        then scan_loop e root_dir sr items acc
                               (print (''Skipping folder '' @ str_path (root_dir @ [n]) @
                                       '' due to '' @ STOP_AUTOMATION_FOLDER @ '' folder.'') w)
                        else scan_loop e root_dir sr items (acc @ [root_dir @ [n]]) w)))"
  by (simp split: sum.splits bool.splits)

text \<open>
  The result of the discovery loop: the exception of the first refusal, or the accepted
  entries in scan order after those already found.
\<close>

lemma scan_loop_result:
  "fst (scan_loop e root_dir sr items acc w) =
     (case first_refusal e root_dir sr items of
        Some ex \<Rightarrow> Inl ex
      | None \<Rightarrow>
          Inr (acc @ map (\<lambda>item. root_dir @ [fst item])
                       (filter (accepted_child root_dir sr) items)))"
proof (induction items arbitrary: acc w)
  case Nil
  then show ?case by simp
next
  case (Cons item items)
  obtain n c where item: "item = (n, c)" by (cases item)
  have IH1: "\<And>acc w. first_refusal e root_dir sr items = None \<Longrightarrow>
      fst (scan_loop e root_dir sr items acc w) =
        Inr (acc @ map (\<lambda>item. root_dir @ [fst item])
                     (filter (accepted_child root_dir sr) items))"
    by (simp add: Cons.IH)
  have IH2: "\<And>acc w ex. first_refusal e root_dir sr items = Some ex \<Longrightarrow>
      fst (scan_loop e root_dir sr items acc w) = Inl ex"
    by (simp add: Cons.IH)
  show ?case
  proof (cases c)
    case (File file_size outcome)
    then show ?thesis
      by (simp del: scan_loop.simps add: scan_loop_Cons item IH1 IH2 entry_is_dir_def refusal_pair accepted_child_pair stat_entry_def
              split: option.splits)
  next
    case (Dir rd csr cs)
    show ?thesis
    proof (cases sr)
      case True
      then have sr: "sr = True" by simp
      show ?thesis
        unfolding sr
        by (cases "map_of cs STOP_AUTOMATION_FOLDER")
           (auto simp del: scan_loop.simps simp: scan_loop_Cons item Dir IH1[unfolded sr] IH2[unfolded sr] entry_is_dir_def refusal_pair accepted_child_pair
              stat_entry_def should_ignore_item path_is_dir_def path_exists_def stat_child_def
              split: stat_result.splits option.splits)
    next
      case False
      then have sr: "sr = False" by simp
      show ?thesis
        unfolding sr
        by (simp del: scan_loop.simps add: scan_loop_Cons item Dir IH1[unfolded sr] IH2[unfolded sr] entry_is_dir_def refusal_pair accepted_child_pair
              stat_entry_def should_ignore_item path_is_dir_def
              split: option.splits)
    qed
  next
    case (Link t)
    show ?thesis
    proof (cases "stat_entry sr c")
      case Denied
      then show ?thesis
        by (simp del: scan_loop.simps add: scan_loop_Cons item Link IH1 IH2 entry_is_dir_def refusal_pair accepted_child_pair
              path_is_dir_def
              split: option.splits)
    next
      case NotFound
      then show ?thesis
        by (simp del: scan_loop.simps add: scan_loop_Cons item Link IH1 IH2 entry_is_dir_def refusal_pair accepted_child_pair
              path_is_dir_def
              split: option.splits)
    next
      case (Found m)
      show ?thesis
      proof (cases m)
        case (File file_size outcome)
        then show ?thesis using Found
          by (simp del: scan_loop.simps add: scan_loop_Cons item Link IH1 IH2 entry_is_dir_def refusal_pair accepted_child_pair
                path_is_dir_def
              split: option.splits)
      next
        case (Link t')
        then show ?thesis using Found follow_not_link[of c m]
          by (auto simp: stat_entry_def split: if_splits)
      next
        case (Dir rd csr cs)
        then show ?thesis using Found
          by (cases "map_of cs STOP_AUTOMATION_FOLDER"; cases csr)
             (auto simp del: scan_loop.simps simp: scan_loop_Cons item Link IH1 IH2 entry_is_dir_def refusal_pair accepted_child_pair
                should_ignore_item path_is_dir_def path_exists_def stat_child_def
                split: stat_result.splits option.splits)
      qed
    qed
  qed
qed

lemma find_project_folders_result:
  assumes "scandir e fs root_dir = Inr (sr, items)"
  shows "fst (find_project_folders e fs root_dir w) =
     (case first_refusal e root_dir sr items of
        Some ex \<Rightarrow> Inl ex
      | None \<Rightarrow>
          Inr (map (\<lambda>item. root_dir @ [fst item]) (filter (accepted_child root_dir sr) items)))"
  using scan_loop_result[of e root_dir sr items "[]" w]
  by (simp add: find_project_folders_def assms split: option.splits)

subsection \<open>Discovery on the examples\<close>

lemmas discovery_eval =
  find_project_folders_def scandir_def scan_loop_Cons entry_is_dir_def stat_entry_def
  should_ignore_def path_is_dir_def path_exists_def stat_child_def name_def
  IGNORE_FOLDERS_def IGNORE_FILES_def STOP_AUTOMATION_FOLDER_def

lemma scandir_repo: "scandir e example_fs [''repo''] = Inr (True, repo_items)"
  by (simp add: scandir_def example_fs_def)


lemma discovery_example:
  "fst (find_project_folders quiet_env example_fs [''repo''] w) =
     Inr [[''repo'', ''good_project''], [''repo'', ''linked''], [''repo'', ''assets''],
          [''repo'', ''docs'']]"
  by (simp del: scan_loop.simps(2) add: discovery_eval example_fs_def repo_items_def docs_items_def)

lemma discovery_locked:
  "fst (find_project_folders quiet_env locked_fs [''repo''] w) =
     Inl (Exception (os_error quiet_env [''repo'', ''locked'', ''.stopautomation'']))"
  by (simp del: scan_loop.simps(2) add: discovery_eval locked_fs_def locked_items_def)


lemma distinct_repo_items: "distinct (map fst repo_items)"
  by (simp add: repo_items_def)




subsection \<open>Folder discovery and the stop marker\<close>




text \<open>
  C9, as stated, fails: the child \<open>linked\<close> of the example root holds an entry named
  \<open>.stopautomation\<close> that is a dangling symbolic link; \<open>exists\<close> follows the link and
  answers \<open>False\<close>, and the child is among the folders returned.
\<close>

theorem C9_counterexample:
  "scandir quiet_env example_fs [''repo''] = Inr (True, repo_items) \<and>
   (''linked'', Dir True True [(''.stopautomation'', Link Dangling),
                               (''main.py'', File 10 (Inr (filler 10)))]) \<in> set repo_items \<and>
   (STOP_AUTOMATION_FOLDER, Link Dangling) \<in>
      set [(''.stopautomation'', Link Dangling), (''main.py'', File 10 (Inr (filler 10)))] \<and>
   fst (find_project_folders quiet_env example_fs [''repo''] example_world) =
     Inr [[''repo'', ''good_project''], [''repo'', ''linked''], [''repo'', ''assets''],
          [''repo'', ''docs'']] \<and>
   [''repo'', ''linked''] \<in>
     set [[''repo'', ''good_project''], [''repo'', ''linked''], [''repo'', ''assets''],
          [''repo'', ''docs'']]"
  by (simp add: scandir_repo discovery_example repo_items_def STOP_AUTOMATION_FOLDER_def)

text \<open>
  C9, amended. When a child of the root holds an entry named \<open>.stopautomation\<close> at which
  \<open>stat\<close> finds something, whatever its kind (a plain file, a directory, or a symbolic
  link that leads to one), the child is not among the folders that discovery returns.
\<close>

theorem C9_stop_entry:
  assumes "scandir e fs root_dir = Inr (root_searchable, items)"
    and "distinct (map fst items)"
    and "(n, child) \<in> set items"
    and "follow child = Found (Dir rd sr cs)"
    and "distinct (map fst cs)"
    and "(STOP_AUTOMATION_FOLDER, stop_entry) \<in> set cs"
    and "follow stop_entry = Found target"
    and "fst (find_project_folders e fs root_dir w) = Inr project_folders"
  shows "root_dir @ [n] \<notin> set project_folders"
proof
  assume mem: "root_dir @ [n] \<in> set project_folders"
  note r = find_project_folders_result[OF assms(1), of w]
  have pfs: "project_folders =
      map (\<lambda>item. root_dir @ [fst item]) (filter (accepted_child root_dir root_searchable) items)"
    using r assms(8) by (simp split: option.splits)
  from mem obtain item where item: "item \<in> set items"
    "accepted_child root_dir root_searchable item" "fst item = n"
    unfolding pfs by auto
  then have "(n, snd item) \<in> set items" by (metis prod.collapse)
  with assms(2,3) have c: "snd item = child" by (metis eq_key_imp_eq_value)
  have acc: "accepted_child root_dir root_searchable (n, child)"
    using item(2,3) c by (metis prod.collapse)
  have m: "map_of cs STOP_AUTOMATION_FOLDER = Some stop_entry"
    using assms(5,6) by (rule map_of_is_SomeI)
  show False
    using acc assms(4,7) m
    by (cases root_searchable; cases sr)
       (simp_all add: accepted_child_pair stat_entry_def stat_child_def)
qed

text \<open>
  The child \<open>paused\<close> of the example root holds an empty plain file named
  \<open>.stopautomation\<close> and is not returned.
\<close>

theorem C9_stop_entry_witness:
  "scandir quiet_env example_fs [''repo''] = Inr (True, repo_items) \<and>
   distinct (map fst repo_items) \<and>
   (''paused'', Dir True True [(''.stopautomation'', File 0 (Inr [])),
                               (''main.py'', File 10 (Inr (filler 10)))]) \<in> set repo_items \<and>
   follow (Dir True True [(''.stopautomation'', File 0 (Inr [])),
                          (''main.py'', File 10 (Inr (filler 10)))]) =
     Found (Dir True True [(''.stopautomation'', File 0 (Inr [])),
                           (''main.py'', File 10 (Inr (filler 10)))]) \<and>
   distinct (map fst [(''.stopautomation'', File 0 (Inr [])),
                      (''main.py'', File 10 (Inr (filler 10)))]) \<and>
   (STOP_AUTOMATION_FOLDER, File 0 (Inr [])) \<in>
      set [(''.stopautomation'', File 0 (Inr [])), (''main.py'', File 10 (Inr (filler 10)))] \<and>
   follow (File 0 (Inr [])) = Found (File 0 (Inr [])) \<and>
   fst (find_project_folders quiet_env example_fs [''repo''] example_world) =
     Inr [[''repo'', ''good_project''], [''repo'', ''linked''], [''repo'', ''assets''],
          [''repo'', ''docs'']] \<and>
   [''repo''] @ [''paused''] \<notin>
     set [[''repo'', ''good_project''], [''repo'', ''linked''], [''repo'', ''assets''],
          [''repo'', ''docs'']]"
proof -
  have m: "(''paused'', Dir True True [(''.stopautomation'', File 0 (Inr [])),
                     (''main.py'', File 10 (Inr (filler 10)))]) \<in> set repo_items"
    by (simp add: repo_items_def)
  have f: "follow (Dir True True [(''.stopautomation'', File 0 (Inr [])),
                          (''main.py'', File 10 (Inr (filler 10)))]) =
     Found (Dir True True [(''.stopautomation'', File 0 (Inr [])),
                           (''main.py'', File 10 (Inr (filler 10)))])" by simp
  have d: "distinct (map fst [(''.stopautomation'', File 0 (Inr [])),
                      (''main.py'', File 10 (Inr (filler 10)))])" by simp
  have s: "(STOP_AUTOMATION_FOLDER, File 0 (Inr [])) \<in>
      set [(''.stopautomation'', File 0 (Inr [])), (''main.py'', File 10 (Inr (filler 10)))]"
    by (simp add: STOP_AUTOMATION_FOLDER_def)
  have t: "follow (File 0 (Inr [])) = Found (File 0 (Inr []))" by simp
  note c = C9_stop_entry[where e = quiet_env and w = example_world,
             OF scandir_repo distinct_repo_items m f d s t discovery_example]
  show ?thesis
    by (rule conjI[OF scandir_repo conjI[OF distinct_repo_items conjI[OF m conjI[OF f
          conjI[OF d conjI[OF s conjI[OF t conjI[OF discovery_example c]]]]]]]])
qed

subsection \<open>Lengths of the fixed strings\<close>

lemma length_base_prompt: "length base_prompt = 825"
  by (simp add: base_prompt_def)

lemma length_file_block: "length (file_block fp c) = 19 + length fp + length c"
  by (simp add: file_block_def)

lemma length_no_content_notice: "length no_content_notice = 104"
  by (simp add: no_content_notice_def)

lemma length_skipped_notice: "length skipped_notice = 78"
  by (simp add: skipped_notice_def)

lemma length_truncation_marker: "length truncation_marker = 38"
  by (simp add: truncation_marker_def)

lemma notices_differ: "no_content_notice \<noteq> skipped_notice"
proof
  assume "no_content_notice = skipped_notice"
  then have "length no_content_notice = length skipped_notice" by (rule arg_cong)
  then show False by (simp add: length_no_content_notice length_skipped_notice)
qed

subsection \<open>Prompt assembly\<close>

lemma sum_blocks:
  "sum_list (map (\<lambda>(fp, content). length (file_block fp content)) fc) = length (blocks fc)"
  by (induction fc) (auto simp: blocks_def)

lemma blocks_take_le: "length (blocks (take k fc)) \<le> length (blocks fc)"
proof -
  have "blocks fc = blocks (take k fc) @ blocks (drop k fc)"
    unfolding blocks_def by (simp flip: map_append concat_append)
  then show ?thesis by (metis le_add1 length_append)
qed

lemma blocks_eq_Nil: "blocks fc = [] \<longleftrightarrow> fc = []"
  by (cases fc) (auto simp: blocks_def file_block_def)

lemma fst_build_prompt:
  "fst (build_prompt fc w) = add_notice (fst (add_files base_prompt fc w)) fc"
  unfolding build_prompt_def by (cases "add_files base_prompt fc w") simp

lemma snd_build_prompt:
  "snd (build_prompt fc w) = snd (add_files base_prompt fc w)"
  unfolding build_prompt_def by (cases "add_files base_prompt fc w") simp

text \<open>The loop never makes the prompt longer than the cap.\<close>

lemma add_files_bound:
  "length prompt \<le> MAX_CONTENT_LENGTH \<Longrightarrow>
   length (fst (add_files prompt fc w)) \<le> MAX_CONTENT_LENGTH"
  by (induction prompt fc w rule: add_files.induct) auto

text \<open>The loop only prints.\<close>

lemma add_files_world:
  "invocations (snd (add_files prompt fc w)) = invocations w \<and>
   requests (snd (add_files prompt fc w)) = requests w \<and>
   written (snd (add_files prompt fc w)) = written w"
  by (induction prompt fc w rule: add_files.induct) (auto simp: print_def)

text \<open>
  When the blocks do not all fit, the loop stops at the first index \<open>k\<close> whose block
  does not fit and returns the prompt extended by the blocks before \<open>k\<close>.
\<close>

lemma add_files_prefix:
  "length prompt \<le> MAX_CONTENT_LENGTH \<Longrightarrow>
   length prompt + sum_list (map (\<lambda>(fp, content). length (file_block fp content)) fc)
     > MAX_CONTENT_LENGTH \<Longrightarrow>
   \<exists>k<length fc.
      fst (add_files prompt fc w) = prompt @ blocks (take k fc) \<and>
      length (prompt @ blocks (take k fc)) \<le> MAX_CONTENT_LENGTH \<and>
      length (prompt @ blocks (take (Suc k) fc)) > MAX_CONTENT_LENGTH"
proof (induction fc arbitrary: prompt)
  case Nil
  then show ?case by simp
next
  case (Cons a fc)
  obtain fp c where a: "a = (fp, c)" by (cases a)
  show ?case
  proof (cases "length prompt + length (file_block fp c) > MAX_CONTENT_LENGTH")
    case True
    then have "fst (add_files prompt (a # fc) w) = prompt @ blocks (take 0 (a # fc))"
      by (simp add: a blocks_def)
    moreover have "length (prompt @ blocks (take (Suc 0) (a # fc))) > MAX_CONTENT_LENGTH"
      using True by (simp add: a blocks_def)
    ultimately show ?thesis using Cons.prems(1)
      by (intro exI[of _ 0]) (simp add: blocks_def)
  next
    case False
    let ?p = "prompt @ file_block fp c"
    have le: "length ?p \<le> MAX_CONTENT_LENGTH" using False by simp
    have gt: "length ?p + sum_list (map (\<lambda>(fp, content). length (file_block fp content)) fc)
                > MAX_CONTENT_LENGTH"
      using Cons.prems(2) by (simp add: a)
    from Cons.IH[OF le gt] obtain k where k: "k < length fc"
      "fst (add_files ?p fc w) = ?p @ blocks (take k fc)"
      "length (?p @ blocks (take k fc)) \<le> MAX_CONTENT_LENGTH"
      "length (?p @ blocks (take (Suc k) fc)) > MAX_CONTENT_LENGTH" by blast
    show ?thesis
      using k False by (intro exI[of _ "Suc k"]) (simp add: a blocks_def)
  qed
qed

text \<open>
  C1. The claim: for every dictionary of collected files the prompt submitted to the
  service is at most \<open>MAX_CONTENT_LENGTH\<close> = 30000 characters long, also after a notice
  has been appended. The loop checks the cap before it appends a file block
  (\<open>add_files_bound\<close>), but the notice is appended after the loop without any check.
  For \<open>two_files\<close> the first block brings the prompt to exactly 30000 characters, the
  second file is skipped, and the notice of 78 characters makes the submitted prompt
  30078 characters long.
\<close>

theorem C1_prompt_exceeds_cap:
  "length (fst (build_prompt two_files example_world)) = 30078 \<and>
   MAX_CONTENT_LENGTH < length (fst (build_prompt two_files example_world))"
  by (simp add: fst_build_prompt two_files_def add_notice_def length_base_prompt length_file_block
        length_filler length_skipped_notice MAX_CONTENT_LENGTH_def)

text \<open>
  C4, as stated, fails: when already the first block does not fit, the prompt holds the
  empty prefix of the entries and the notice appended is the one for no content, not the
  one for skipped files.
\<close>

theorem C4_counterexample:
  "sum_list (map (\<lambda>(fp, content). length (file_block fp content)) one_big_file)
     > MAX_CONTENT_LENGTH \<and>
   fst (build_prompt one_big_file example_world) = base_prompt @ no_content_notice \<and>
   fst (build_prompt one_big_file example_world) \<noteq> base_prompt @ skipped_notice"
  using notices_differ
  by (simp add: fst_build_prompt one_big_file_def add_notice_def length_base_prompt
        length_file_block length_filler MAX_CONTENT_LENGTH_def)

text \<open>
  C4, amended. For every dictionary whose file blocks together with the preamble exceed
  the cap there is an index \<open>k\<close> of an entry such that the blocks of the first \<open>k\<close>
  entries fit, the block of entry \<open>k\<close> would exceed the cap, and the assembled prompt is
  the preamble, the blocks of exactly the first \<open>k\<close> entries in iteration order (every
  later entry is left out whatever its size), and one notice: the notice for skipped
  files when \<open>k > 0\<close>, the notice for no content when \<open>k = 0\<close>.
\<close>

theorem C4_strict_prefix:
  assumes "length base_prompt +
           sum_list (map (\<lambda>(fp, content). length (file_block fp content)) fc)
             > MAX_CONTENT_LENGTH"
  shows "\<exists>k<length fc.
           length (base_prompt @ blocks (take k fc)) \<le> MAX_CONTENT_LENGTH \<and>
           length (base_prompt @ blocks (take (Suc k) fc)) > MAX_CONTENT_LENGTH \<and>
           fst (build_prompt fc w) =
             base_prompt @ blocks (take k fc) @
             (if k = 0 then no_content_notice else skipped_notice)"
proof -
  have base: "length base_prompt \<le> MAX_CONTENT_LENGTH"
    by (simp add: length_base_prompt MAX_CONTENT_LENGTH_def)
  from add_files_prefix[OF base assms, of w] obtain k where k: "k < length fc"
    and p: "fst (add_files base_prompt fc w) = base_prompt @ blocks (take k fc)"
    and le: "length (base_prompt @ blocks (take k fc)) \<le> MAX_CONTENT_LENGTH"
    and gt: "length (base_prompt @ blocks (take (Suc k) fc)) > MAX_CONTENT_LENGTH"
    by blast
  have bp: "fst (build_prompt fc w) = add_notice (base_prompt @ blocks (take k fc)) fc"
    by (simp only: fst_build_prompt p)
  have notice: "add_notice (base_prompt @ blocks (take k fc)) fc =
      base_prompt @ blocks (take k fc) @ (if k = 0 then no_content_notice else skipped_notice)"
  proof (cases "k = 0")
    case True
    then show ?thesis by (simp add: add_notice_def blocks_def)
  next
    case False
    then have "take k fc \<noteq> []" using k by auto
    then have ne: "blocks (take k fc) \<noteq> []" by (simp add: blocks_eq_Nil)
    have "length (blocks (take (Suc k) fc)) \<le> length (blocks fc)" by (rule blocks_take_le)
    moreover have "length (blocks (take k fc)) < length (blocks (take (Suc k) fc))"
      using le gt by (simp only: length_append)
    ultimately have lt: "length (blocks (take k fc)) < length (blocks fc)" by linarith
    show ?thesis using False ne lt by (simp add: add_notice_def sum_blocks)
  qed
  have "k < length fc \<and>
           length (base_prompt @ blocks (take k fc)) \<le> MAX_CONTENT_LENGTH \<and>
           length (base_prompt @ blocks (take (Suc k) fc)) > MAX_CONTENT_LENGTH \<and>
           fst (build_prompt fc w) =
             base_prompt @ blocks (take k fc) @
             (if k = 0 then no_content_notice else skipped_notice)"
    using k le gt bp notice by (simp only:)
  then show ?thesis by (rule exI[of _ k])
qed

theorem C4_strict_prefix_witness:
  "\<exists>k<length two_files.
           length (base_prompt @ blocks (take k two_files)) \<le> MAX_CONTENT_LENGTH \<and>
           length (base_prompt @ blocks (take (Suc k) two_files)) > MAX_CONTENT_LENGTH \<and>
           fst (build_prompt two_files example_world) =
             base_prompt @ blocks (take k two_files) @
             (if k = 0 then no_content_notice else skipped_notice)"
proof -
  have h: "length base_prompt +
           sum_list (map (\<lambda>(fp, content). length (file_block fp content)) two_files)
             > MAX_CONTENT_LENGTH"
    by (simp add: two_files_def length_base_prompt length_file_block length_filler
          MAX_CONTENT_LENGTH_def)
  show ?thesis by (rule C4_strict_prefix[OF h])
qed

subsection \<open>Text classification\<close>

lemma lower_suffix_upper_case: "lower (suffix [''p'', ''Main.PY'']) = ''.py''"
  by code_simp

lemma lower_suffix_png: "lower (suffix [''p'', ''logo.png'']) = ''.png''"
  by code_simp

text \<open>
  C7. For every path and every media-type table: a file whose extension (lower-cased) is
  in the allow-list is classified as text whatever media type is declared for it, and a
  file that has neither a media type starting with \<open>text/\<close> nor an allow-listed
  extension is not classified as text.
\<close>

theorem C7_text_classifier:
  "(lower (suffix p) \<in> set text_extensions \<longrightarrow> is_text_file guess p) \<and>
   ((case guess' (str_path p') of None \<Rightarrow> True | Some m \<Rightarrow> \<not> startswith m ''text/'') \<and>
    lower (suffix p') \<notin> set text_extensions \<longrightarrow> \<not> is_text_file guess' p')"
  by (auto simp: is_text_file_def split: option.splits)

theorem C7_text_classifier_witness:
  "lower (suffix [''p'', ''Main.PY'']) \<in> set text_extensions \<and>
   is_text_file (\<lambda>_. Some ''application/octet-stream'') [''p'', ''Main.PY''] \<and>
   (case (\<lambda>_. Some ''image/png'') (str_path [''p'', ''logo.png'']) of
      None \<Rightarrow> True | Some m \<Rightarrow> \<not> startswith m ''text/'') \<and>
   lower (suffix [''p'', ''logo.png'']) \<notin> set text_extensions \<and>
   \<not> is_text_file (\<lambda>_. Some ''image/png'') [''p'', ''logo.png'']"
  using C7_text_classifier[where p = "[''p'', ''Main.PY'']"
      and guess = "\<lambda>_. Some ''application/octet-stream''"
      and guess' = "\<lambda>_. Some ''image/png''" and p' = "[''p'', ''logo.png'']"]
  by (simp add: lower_suffix_upper_case lower_suffix_png text_extensions_def startswith_def)

subsection \<open>The generator client\<close>


lemma try_body_init_failure:
  "GenerativeModel e (invocations w) = Some ex \<Longrightarrow> try_body e fc w = (Inl ex, w)"
  by (simp add: try_body_def)

lemma try_body_call_failure:
  assumes "GenerativeModel e (invocations w) = None"
    "generate_content e (invocations w) (fst (build_prompt fc w)) = Inl ex"
  shows "try_body e fc w =
     (Inl ex, (snd (build_prompt fc w))
                \<lparr>requests := requests (snd (build_prompt fc w)) @ [fst (build_prompt fc w)]\<rparr>)"
  using assms by (cases "build_prompt fc w") (simp add: try_body_def)

lemma try_body_call_returns:
  assumes "GenerativeModel e (invocations w) = None"
    "generate_content e (invocations w) (fst (build_prompt fc w)) = Inr response"
  shows "\<exists>readme. fst (try_body e fc w) = Inr readme"
  using assms by (cases "build_prompt fc w") (simp add: try_body_def Let_def)

lemma generate_failure:
  assumes "GenerativeModel e (invocations w) = None"
    "generate_content e (invocations w) (fst (build_prompt fc w)) = Inl (Exception description)"
  shows "fst (generate_readme_with_gemini e fc w) = Inr (error_document description)"
    and "written (snd (generate_readme_with_gemini e fc w)) = written w"
  using add_files_world[of base_prompt fc w]
  by (simp_all add: generate_readme_with_gemini_def try_body_call_failure[OF assms]
        snd_build_prompt print_def)

text \<open>The generator client lets an exception out exactly when its body raises an
  exception that is not an instance of \<open>Exception\<close>.\<close>

lemma generate_propagates:
  "(\<exists>x. fst (generate_readme_with_gemini e fc w) = Inl x) \<longleftrightarrow>
     (\<exists>d. fst (try_body e fc w) = Inl (Interrupt d))"
proof (cases "try_body e fc w")
  case (Pair r w')
  show ?thesis
  proof (cases r)
    case (Inl ex)
    then show ?thesis using Pair
      by (cases ex) (simp_all add: generate_readme_with_gemini_def)
  next
    case (Inr readme)
    then show ?thesis using Pair by (simp add: generate_readme_with_gemini_def)
  qed
qed

lemma try_body_raises:
  "fst (try_body e fc w) = Inl ex \<longleftrightarrow>
     GenerativeModel e (invocations w) = Some ex \<or>
     (GenerativeModel e (invocations w) = None \<and>
      generate_content e (invocations w) (fst (build_prompt fc w)) = Inl ex)"
proof (cases "GenerativeModel e (invocations w)")
  case None
  show ?thesis
  proof (cases "generate_content e (invocations w) (fst (build_prompt fc w))")
    case (Inl ex')
    then show ?thesis using None by (simp add: try_body_call_failure)
  next
    case (Inr response)
    then show ?thesis using None try_body_call_returns[OF None Inr] by auto
  qed
next
  case (Some ex')
  then show ?thesis by (simp add: try_body_init_failure)
qed

lemma auth_failure_raises:
  "generate_content auth_failure_env k prompt = Inl (Exception ''401 API key not valid'')"
  by (simp add: auth_failure_env_def)

lemma auth_failure_init: "GenerativeModel auth_failure_env k = None"
  by (simp add: auth_failure_env_def quiet_env_def)

lemma quiet_returns:
  "fst (generate_readme_with_gemini quiet_env one_small_file example_world) = Inr ''# Title''"
  by (cases "build_prompt one_small_file example_world")
     (simp add: generate_readme_with_gemini_def try_body_def quiet_env_def Let_def)

text \<open>
  C10, as stated, fails: when the service call is interrupted from the keyboard, the
  exception raised is not an instance of \<open>Exception\<close>; the handler does not catch it and
  it leaves the generator client, which returns no string.
\<close>

theorem C10_counterexample:
  "generate_content interrupt_env (invocations example_world)
     (fst (build_prompt one_small_file example_world)) = Inl (Interrupt []) \<and>
   fst (generate_readme_with_gemini interrupt_env one_small_file example_world) =
     Inl (Interrupt [])"
proof -
  have i: "GenerativeModel interrupt_env (invocations example_world) = None"
    by (simp add: interrupt_env_def quiet_env_def)
  have c: "generate_content interrupt_env (invocations example_world)
     (fst (build_prompt one_small_file example_world)) = Inl (Interrupt [])"
    by (simp add: interrupt_env_def)
  show ?thesis
    using c by (simp add: generate_readme_with_gemini_def try_body_call_failure[OF i c])
qed

text \<open>
  C10, amended. An instance of \<open>Exception\<close> raised by the creation of the model or by the
  service call is caught, and the generator client returns the error document for the
  description of the exception; every error document begins with the heading
  \<open># Error Generating README\<close>. An exception leaves the generator client exactly when the
  creation of the model, or after it the service call, raises one that is not an instance
  of \<open>Exception\<close>. Prompt assembly works on strings only and raises nothing.
\<close>

theorem C10_generator_total:
  "(GenerativeModel e (invocations w) = Some (Exception description) \<longrightarrow>
      fst (generate_readme_with_gemini e fc w) = Inr (error_document description)) \<and>
   (GenerativeModel ea (invocations wa) = None \<and>
    generate_content ea (invocations wa) (fst (build_prompt fca wa)) =
      Inl (Exception descriptiona) \<longrightarrow>
      fst (generate_readme_with_gemini ea fca wa) = Inr (error_document descriptiona)) \<and>
   startswith (error_document descriptionb) ''# Error Generating README'' \<and>
   ((\<exists>x. fst (generate_readme_with_gemini eb fcb wb) = Inl x) \<longleftrightarrow>
      (\<exists>d. GenerativeModel eb (invocations wb) = Some (Interrupt d)) \<or>
      (GenerativeModel eb (invocations wb) = None \<and>
       (\<exists>d. generate_content eb (invocations wb) (fst (build_prompt fcb wb)) =
              Inl (Interrupt d))))"
proof (intro conjI impI)
  assume "GenerativeModel e (invocations w) = Some (Exception description)"
  then show "fst (generate_readme_with_gemini e fc w) = Inr (error_document description)"
    by (simp add: generate_readme_with_gemini_def try_body_init_failure)
next
  assume "GenerativeModel ea (invocations wa) = None \<and>
    generate_content ea (invocations wa) (fst (build_prompt fca wa)) =
      Inl (Exception descriptiona)"
  then show "fst (generate_readme_with_gemini ea fca wa) = Inr (error_document descriptiona)"
    by (simp add: generate_failure(1))
next
  show "startswith (error_document descriptionb) ''# Error Generating README''"
    by (simp add: startswith_def error_document_def)
next
  show "(\<exists>x. fst (generate_readme_with_gemini eb fcb wb) = Inl x) \<longleftrightarrow>
      (\<exists>d. GenerativeModel eb (invocations wb) = Some (Interrupt d)) \<or>
      (GenerativeModel eb (invocations wb) = None \<and>
       (\<exists>d. generate_content eb (invocations wb) (fst (build_prompt fcb wb)) =
              Inl (Interrupt d)))"
    unfolding generate_propagates try_body_raises by blast
qed

text \<open>
  A world in which the creation of the model fails, one in which the service refuses the
  key, and one in which nothing fails and the answer of the service is returned.
\<close>

theorem C10_generator_total_witness:
  "(GenerativeModel init_failure_env (invocations example_world) =
      Some (Exception ''model not found'') \<and>
    fst (generate_readme_with_gemini init_failure_env one_small_file example_world) =
      Inr (error_document ''model not found'')) \<and>
   ((GenerativeModel auth_failure_env (invocations example_world) = None \<and>
     generate_content auth_failure_env (invocations example_world)
       (fst (build_prompt one_small_file example_world)) =
       Inl (Exception ''401 API key not valid'')) \<and>
    fst (generate_readme_with_gemini auth_failure_env one_small_file example_world) =
      Inr (error_document ''401 API key not valid'')) \<and>
   startswith (error_document ''quota exceeded'') ''# Error Generating README'' \<and>
   ((\<exists>x. fst (generate_readme_with_gemini quiet_env one_small_file example_world) = Inl x) \<longleftrightarrow>
      (\<exists>d. GenerativeModel quiet_env (invocations example_world) = Some (Interrupt d)) \<or>
      (GenerativeModel quiet_env (invocations example_world) = None \<and>
       (\<exists>d. generate_content quiet_env (invocations example_world)
              (fst (build_prompt one_small_file example_world)) = Inl (Interrupt d)))) \<and>
   fst (generate_readme_with_gemini quiet_env one_small_file example_world) = Inr ''# Title''"
proof -
  have i: "GenerativeModel init_failure_env (invocations example_world) =
      Some (Exception ''model not found'')"
    by (simp add: init_failure_env_def)
  note c = C10_generator_total[where e = init_failure_env and w = example_world
      and description = "''model not found''" and fc = one_small_file
      and ea = auth_failure_env and wa = example_world and fca = one_small_file
      and descriptiona = "''401 API key not valid''" and descriptionb = "''quota exceeded''"
      and eb = quiet_env and fcb = one_small_file and wb = example_world]
  show ?thesis
    using i auth_failure_init auth_failure_raises quiet_returns c by blast
qed

subsection \<open>The main loop\<close>

text \<open>Collecting files only prints.\<close>

lemma print_world:
  "invocations (print l w) = invocations w \<and> requests (print l w) = requests w \<and>
   written (print l w) = written w"
  by (simp add: print_def)

lemma collect_file_world:
  "invocations (snd (collect_file e p v d w)) = invocations w \<and>
   requests (snd (collect_file e p v d w)) = requests w \<and>
   written (snd (collect_file e p v d w)) = written w"
  by (simp add: collect_file_def print_def
        split: sum.splits file_view.splits exn.splits)

lemma collect_all_world:
  "invocations (snd (collect_all e L d w)) = invocations w \<and>
   requests (snd (collect_all e L d w)) = requests w \<and>
   written (snd (collect_all e L d w)) = written w"
proof (induction L arbitrary: d w)
  case Nil
  then show ?case by simp
next
  case (Cons x L)
  obtain p v where x: "x = (p, v)" by (cases x)
  obtain r w1 where c: "collect_file e p v d w = (r, w1)"
    by (cases "collect_file e p v d w")
  have w1: "invocations w1 = invocations w \<and> requests w1 = requests w \<and> written w1 = written w"
    using collect_file_world[of e p v d w] by (simp add: c)
  show ?case
  proof (cases r)
    case (Inl ex)
    then show ?thesis using w1 by (simp add: x c)
  next
    case (Inr d1)
    then show ?thesis using w1 Cons.IH[of d1 w1] by (simp add: x c)
  qed
qed

lemma read_project_files_world:
  "invocations (snd (read_project_files e fs pf w)) = invocations w \<and>
   requests (snd (read_project_files e fs pf w)) = requests w \<and>
   written (snd (read_project_files e fs pf w)) = written w"
proof (cases "stat_path fs pf")
  case (Found start)
  then show ?thesis
    by (simp only: read_project_files_visited[OF Found] collect_all_world)
next
  case NotFound
  then show ?thesis by (simp add: read_project_files_def)
next
  case Denied
  then show ?thesis by (simp add: read_project_files_def)
qed

lemma stat_assets:
  "stat_path example_fs [''repo'', ''assets''] =
     Found (Dir True True [(''logo.png'', File 20 (Inl (Exception ''invalid start byte'')))])"
  by (simp add: example_fs_def repo_items_def)

lemma logo_not_text: "\<not> is_text_file (guess_type quiet_env) [''repo'', ''assets'', ''logo.png'']"
  by (simp add: is_text_file_def quiet_env_def suffix_def name_def lower_def lower_char_def
        text_extensions_def)

lemma assets_empty:
  "fst (read_project_files quiet_env example_fs [''repo'', ''assets'']
          (print (''Processing folder: '' @ str_path [''repo'', ''assets'']) example_world)) =
     Inr []"
  unfolding read_project_files_def stat_assets
  by (simp add: collect_file_def logo_not_text should_ignore_def name_def IGNORE_FOLDERS_def
        IGNORE_FILES_def stat_entry_def)





text \<open>
  C8. When the File Collector returns an empty dictionary for a project folder, the
  step of the main loop raises nothing, sends no request to the service, does not invoke
  the generator client, writes no file, and its last printed line is the message that
  README generation is skipped for that folder.
\<close>

theorem C8_no_files_no_generation:
  assumes "fst (read_project_files e fs pf (print (''Processing folder: '' @ str_path pf) w)) =
             Inr []"
  shows "fst (process_folder e fs pf w) = None \<and>
         requests (snd (process_folder e fs pf w)) = requests w \<and>
         invocations (snd (process_folder e fs pf w)) = invocations w \<and>
         written (snd (process_folder e fs pf w)) = written w \<and>
         last (printed (snd (process_folder e fs pf w))) =
           ''No relevant files found in '' @ str_path pf @ ''. Skipping README generation.''"
proof -
  let ?w0 = "print (''Processing folder: '' @ str_path pf) w"
  obtain r w1 where r: "read_project_files e fs pf ?w0 = (r, w1)"
    by (cases "read_project_files e fs pf ?w0")
  have fc: "r = Inr []" using assms unfolding r by simp
  have w1: "invocations w1 = invocations w \<and> requests w1 = requests w \<and> written w1 = written w"
    using read_project_files_world[of e fs pf ?w0] unfolding r by (simp add: print_world)
  have "process_folder e fs pf w =
          (None, print (''No relevant files found in '' @ str_path pf @
                        ''. Skipping README generation.'') w1)"
    unfolding process_folder_def r fc by simp
  then show ?thesis using w1 by (simp add: print_def)
qed

text \<open>
  The folder \<open>assets\<close> of the example holds one file that is not text.
\<close>

theorem C8_no_files_no_generation_witness:
  "fst (read_project_files quiet_env example_fs [''repo'', ''assets'']
          (print (''Processing folder: '' @ str_path [''repo'', ''assets'']) example_world)) =
     Inr [] \<and>
   fst (process_folder quiet_env example_fs [''repo'', ''assets''] example_world) = None \<and>
   requests (snd (process_folder quiet_env example_fs [''repo'', ''assets''] example_world)) =
     requests example_world \<and>
   invocations (snd (process_folder quiet_env example_fs [''repo'', ''assets''] example_world)) =
     invocations example_world \<and>
   written (snd (process_folder quiet_env example_fs [''repo'', ''assets''] example_world)) =
     written example_world \<and>
   last (printed (snd (process_folder quiet_env example_fs [''repo'', ''assets'']
                         example_world))) =
     ''No relevant files found in '' @ str_path [''repo'', ''assets''] @
     ''. Skipping README generation.''"
  using assets_empty C8_no_files_no_generation[OF assets_empty] by (rule conjI)




end
